theory Spec2Isabelle
  imports Complex_Main
begin

section \<open>JavaScript values used by the media-info pipeline\<close>

text \<open>
  Strings are lists of characters; \<open>length\<close> is the JavaScript \<open>.length\<close>
  (one character per UTF-16 code unit).  A promise that is awaited either throws an
  error, of which the code only ever reads the message, or yields a value.
\<close>

datatype 'a awaited = Rejects string | Resolves 'a

text \<open>Decimal rendering of a non-negative integer, as a template literal prints it.\<close>

definition digit_char :: "nat \<Rightarrow> char" where
  "digit_char d =
     (if d = 0 then CHR ''0'' else if d = 1 then CHR ''1'' else if d = 2 then CHR ''2''
      else if d = 3 then CHR ''3'' else if d = 4 then CHR ''4'' else if d = 5 then CHR ''5''
      else if d = 6 then CHR ''6'' else if d = 7 then CHR ''7'' else if d = 8 then CHR ''8''
      else CHR ''9'')"

function natToString :: "nat \<Rightarrow> string" where
  "natToString n =
     (if n < 10 then [digit_char n] else natToString (n div 10) @ [digit_char (n mod 10)])"
  by pat_completeness auto
termination
  by (relation "measure (\<lambda>n. n)") auto

declare natToString.simps [simp del]

text \<open>\<open>String.prototype.trim\<close>, \<open>startsWith\<close>, \<open>includes\<close> and \<open>Array.prototype.join\<close>.\<close>

definition isWhiteSpace :: "char \<Rightarrow> bool" where
  "isWhiteSpace c \<longleftrightarrow> c \<in> set [CHR 0x09, CHR 0x0A, CHR 0x0B, CHR 0x0C, CHR 0x0D, CHR 0x20, CHR 0xA0]"

definition trim :: "string \<Rightarrow> string" where
  "trim s = rev (dropWhile isWhiteSpace (rev (dropWhile isWhiteSpace s)))"

definition startsWith :: "string \<Rightarrow> string \<Rightarrow> bool" where
  "startsWith s p \<longleftrightarrow> take (length p) s = p"

fun includes_str :: "string \<Rightarrow> string \<Rightarrow> bool" where
  "includes_str [] p = (p = [])"
| "includes_str (c # cs) p = (startsWith (c # cs) p \<or> includes_str cs p)"

fun join :: "string \<Rightarrow> string list \<Rightarrow> string" where
  "join sep [] = []"
| "join sep [x] = x"
| "join sep (x # y # ys) = x @ sep @ join sep (y # ys)"

text \<open>A template literal prints an absent (\<open>undefined\<close>) string as the word itself.\<close>

definition template :: "string option \<Rightarrow> string" where
  "template v = (case v of None \<Rightarrow> ''undefined'' | Some s \<Rightarrow> s)"

section \<open>The HTTP collaborator\<close>

text \<open>
  \<open>fetch\<close> is the outside world: a function from the request to what awaiting it gives.
  Of a response the code reads \<open>status\<close> (and \<open>ok\<close>, which the Fetch standard defines as
  a status in 200..299), the headers, and the body as text, as JSON or as bytes; reading
  the body can itself throw.  Of a JSON body only the \<open>key\<close> member is read.
\<close>

datatype body = NoBody | TextBody string | FormBody "(string \<times> string) list"

record HttpRequest =
  req_method :: string
  req_url :: string
  req_headers :: "(string \<times> string) list"
  req_body :: body

record HttpResponse =
  status :: nat
  statusText :: string
  headers :: "(string \<times> string) list"
  body_text :: "string awaited"
  json_key :: "string option awaited"
  arrayBuffer :: "nat list awaited"

definition ok :: "HttpResponse \<Rightarrow> bool" where
  "ok r \<longleftrightarrow> 200 \<le> status r \<and> status r \<le> 299"

type_synonym network = "HttpRequest \<Rightarrow> HttpResponse awaited"

section \<open>Distribution fan-out: the paste chain (services/pastebin.ts)\<close>

record PasteResult =
  success :: bool
  url :: "string option"
  error :: "string option"

definition paste_ok :: "string \<Rightarrow> PasteResult" where
  "paste_ok u = \<lparr>success = True, url = Some u, error = None\<rparr>"

definition paste_failed :: "string \<Rightarrow> PasteResult" where
  "paste_failed m = \<lparr>success = False, url = None, error = Some m\<rparr>"

text \<open>
  The body of the three plain-text providers is the same but for the names: a
  non-success status, an unreadable body and a body of the wrong shape each throw, and
  the \<open>catch\<close> turns every throw into a failed result carrying the message.
\<close>

definition text_provider :: "string \<Rightarrow> string \<Rightarrow> HttpResponse awaited \<Rightarrow> PasteResult" where
  "text_provider name pre fetched =
     (case fetched of
        Rejects m \<Rightarrow> paste_failed m
      | Resolves response \<Rightarrow>
          if \<not> ok response then paste_failed (name @ '' returned '' @ natToString (status response))
          else (case body_text response of
                  Rejects m \<Rightarrow> paste_failed m
                | Resolves t \<Rightarrow>
                    let u = trim t in
                    if u \<noteq> [] \<and> startsWith u pre then paste_ok u
                    else paste_failed (''Invalid response from '' @ name)))"

definition pasteRsRequest :: "string \<Rightarrow> HttpRequest" where
  "pasteRsRequest content =
     \<lparr>req_method = ''POST'', req_url = ''https://paste.rs/'',
      req_headers = [(''Content-Type'', ''text/plain; charset=utf-8'')],
      req_body = TextBody content\<rparr>"

definition uploadToPasteRs ::
  "network \<Rightarrow> string \<Rightarrow> HttpRequest list \<Rightarrow> PasteResult \<times> HttpRequest list" where
  "uploadToPasteRs fetch content sent =
     (text_provider ''paste.rs'' ''https://paste.rs/'' (fetch (pasteRsRequest content)),
      sent @ [pasteRsRequest content])"

definition hastebinRequest :: "string \<Rightarrow> HttpRequest" where
  "hastebinRequest content =
     \<lparr>req_method = ''POST'', req_url = ''https://hastebin.com/documents'',
      req_headers = [(''Content-Type'', ''text/plain; charset=utf-8'')],
      req_body = TextBody content\<rparr>"

definition uploadToHastebin ::
  "network \<Rightarrow> string \<Rightarrow> HttpRequest list \<Rightarrow> PasteResult \<times> HttpRequest list" where
  "uploadToHastebin fetch content sent =
     ((case fetch (hastebinRequest content) of
         Rejects m \<Rightarrow> paste_failed m
       | Resolves response \<Rightarrow>
           if \<not> ok response then paste_failed (''hastebin returned '' @ natToString (status response))
           else (case json_key response of
                   Rejects m \<Rightarrow> paste_failed m
                 | Resolves None \<Rightarrow> paste_failed ''Invalid response from hastebin''
                 | Resolves (Some k) \<Rightarrow>
                     if k \<noteq> [] then paste_ok (''https://hastebin.com/'' @ k)
                     else paste_failed ''Invalid response from hastebin'')),
      sent @ [hastebinRequest content])"

definition dpasteRequest :: "string \<Rightarrow> string option \<Rightarrow> nat \<Rightarrow> HttpRequest" where
  "dpasteRequest content title expiryDays =
     \<lparr>req_method = ''POST'', req_url = ''https://dpaste.org/api/'', req_headers = [],
      req_body = FormBody
        ([(''content'', content)]
         @ (case title of None \<Rightarrow> [] | Some t \<Rightarrow> if t \<noteq> [] then [(''title'', t)] else [])
         @ [(''expiry_days'', natToString (min expiryDays 365))])\<rparr>"

definition uploadToDpaste ::
  "network \<Rightarrow> string \<Rightarrow> string option \<Rightarrow> nat \<Rightarrow> HttpRequest list
     \<Rightarrow> PasteResult \<times> HttpRequest list" where
  "uploadToDpaste fetch content title expiryDays sent =
     (text_provider ''dpaste.org'' ''https://dpaste.org/''
        (fetch (dpasteRequest content title expiryDays)),
      sent @ [dpasteRequest content title expiryDays])"

definition zeroRequest :: "string \<Rightarrow> HttpRequest" where
  "zeroRequest content =
     \<lparr>req_method = ''POST'', req_url = ''https://0x0.st'', req_headers = [],
      req_body = FormBody [(''file'', content), (''expires'', ''168'')]\<rparr>"

definition uploadTo0x0 ::
  "network \<Rightarrow> string \<Rightarrow> HttpRequest list \<Rightarrow> PasteResult \<times> HttpRequest list" where
  "uploadTo0x0 fetch content sent =
     (text_provider ''0x0.st'' ''https://0x0.st/'' (fetch (zeroRequest content)),
      sent @ [zeroRequest content])"

text \<open>
  \<open>uploadToPastebin\<close>: the list of requests sent is threaded through the four attempts.  The
  four helpers catch everything themselves, so the outer \<open>catch\<close> blocks of the source
  are never entered and have no branch here.
\<close>

definition uploadToPastebin ::
  "network \<Rightarrow> string \<Rightarrow> string option \<Rightarrow> nat \<Rightarrow> HttpRequest list
     \<Rightarrow> PasteResult \<times> HttpRequest list" where
  "uploadToPastebin fetch content title expiryDays log0 =
     (let errors0 = [];
          (pasteRsResult, log1) = uploadToPasteRs fetch content log0
      in if success pasteRsResult then (pasteRsResult, log1)
      else
        let errors1 = errors0 @ [''paste.rs: '' @ template (error pasteRsResult)];
            (dpasteResult, log2) = uploadToDpaste fetch content title expiryDays log1
        in if success dpasteResult then (dpasteResult, log2)
        else
          let errors2 = errors1 @ [''dpaste.org: '' @ template (error dpasteResult)];
              (fallbackResult, log3) = uploadTo0x0 fetch content log2
          in if success fallbackResult then (fallbackResult, log3)
          else
            let errors3 = errors2 @ [''0x0.st: '' @ template (error fallbackResult)];
                (hastebinResult, log4) = uploadToHastebin fetch content log3
            in if success hastebinResult then (hastebinResult, log4)
            else
              let errors4 = errors3 @ [''hastebin: '' @ template (error hastebinResult)]
              in (\<lparr>success = False, url = None,
                   error = Some (''All paste services failed: '' @ join ''; '' errors4)\<rparr>,
                  log4))"


section \<open>JavaScript numbers\<close>

text \<open>
  A JavaScript number is an IEEE-754 double.  The finite doubles are rationals, and the
  model computes with them exactly: \<open>fl q\<close> is the double nearest to the rational
  \<open>q\<close>, ties to the even significand (53 bits; overflow and subnormal numbers are out
  of reach of the quantities handled here and are not modelled).  An arithmetic
  operation of the source is the exact operation followed by \<open>fl\<close>; a decimal literal
  such as \<open>2.35\<close> is \<open>fl (235 / 100)\<close>.  Integers below \<open>2 ^ 53\<close> are doubles, and
  their sums, remainders and exact quotients need no rounding.
\<close>

definition pow2 :: "int \<Rightarrow> rat" where
  "pow2 k = (if 0 \<le> k then 2 ^ nat k else 1 / 2 ^ nat (- k))"

text \<open>
  \<open>ilog2 q\<close> is the exponent \<open>e\<close> with \<open>2 ^ e \<le> q < 2 ^ (e + 1)\<close>, for \<open>q > 0\<close>: the
  number of halvings that bring \<open>q\<close> below 2, or minus the number of doublings that bring
  it to 1.
\<close>

function ilog2_up :: "rat \<Rightarrow> nat" where
  "ilog2_up q = (if q < 2 then 0 else Suc (ilog2_up (q / 2)))"
  by pat_completeness auto
termination
proof (relation "measure (\<lambda>q. nat \<lfloor>q\<rfloor>)")
  show "wf (measure (\<lambda>q::rat. nat \<lfloor>q\<rfloor>))" by simp
next
  fix q :: rat
  assume "\<not> q < 2"
  then have "q / 2 \<le> q - 1" by simp
  then have "\<lfloor>q / 2\<rfloor> \<le> \<lfloor>q - 1\<rfloor>" by (rule floor_mono)
  then have "\<lfloor>q / 2\<rfloor> \<le> \<lfloor>q\<rfloor> - 1" by simp
  moreover have "2 \<le> \<lfloor>q\<rfloor>" using \<open>\<not> q < 2\<close> by (simp add: le_floor_iff)
  ultimately have "nat \<lfloor>q / 2\<rfloor> < nat \<lfloor>q\<rfloor>" by linarith
  then show "(q / 2, q) \<in> measure (\<lambda>q. nat \<lfloor>q\<rfloor>)" by simp
qed

function ilog2_down :: "rat \<Rightarrow> nat" where
  "ilog2_down q = (if 1 \<le> q \<or> q \<le> 0 then 0 else Suc (ilog2_down (q * 2)))"
  by pat_completeness auto
termination
proof (relation "measure (\<lambda>q. nat \<lceil>1 / q\<rceil>)")
  show "wf (measure (\<lambda>q::rat. nat \<lceil>1 / q\<rceil>))" by simp
next
  fix q :: rat
  assume "\<not> (1 \<le> q \<or> q \<le> 0)"
  then have q: "0 < q" "q < 1" by simp_all
  then have x: "1 < 1 / q" by simp
  then have c: "2 \<le> \<lceil>1 / q\<rceil>" by (simp add: le_ceiling_iff)
  then have c': "(2::rat) \<le> of_int \<lceil>1 / q\<rceil>" by linarith
  have "1 / q \<le> of_int \<lceil>1 / q\<rceil>" by (rule le_of_int_ceiling)
  then have "1 / (q * 2) \<le> of_int \<lceil>1 / q\<rceil> / 2" by simp
  also have "\<dots> \<le> of_int \<lceil>1 / q\<rceil> - 1" using c' by linarith
  also have "\<dots> = of_int (\<lceil>1 / q\<rceil> - 1)" by simp
  finally have "\<lceil>1 / (q * 2)\<rceil> \<le> \<lceil>1 / q\<rceil> - 1" by (simp only: ceiling_le_iff)
  then have "nat \<lceil>1 / (q * 2)\<rceil> < nat \<lceil>1 / q\<rceil>" using c by linarith
  then show "(q * 2, q) \<in> measure (\<lambda>q. nat \<lceil>1 / q\<rceil>)" by simp
qed

declare ilog2_up.simps [simp del]

declare ilog2_down.simps [simp del]

definition ilog2 :: "rat \<Rightarrow> int" where
  "ilog2 q = (if 1 \<le> q then int (ilog2_up q) else - int (ilog2_down q))"

definition round_half_even :: "rat \<Rightarrow> int" where
  "round_half_even y =
     (let f = \<lfloor>y\<rfloor>; d = y - of_int f
      in if d < 1 / 2 then f else if 1 / 2 < d then f + 1 else if even f then f else f + 1)"

definition fl :: "rat \<Rightarrow> rat" where
  "fl q =
     (if q = 0 then 0
      else let a = \<bar>q\<bar>; u = pow2 (ilog2 a - 52)
           in sgn q * of_int (round_half_even (a / u)) * u)"

text \<open>\<open>Math.round\<close>: the nearest integer, a tie going up.\<close>

definition Math_round :: "rat \<Rightarrow> int" where
  "Math_round x = \<lfloor>x + 1 / 2\<rfloor>"

text \<open>The remainder operator \<open>%\<close> on integers: the result has the sign of the dividend.\<close>

definition js_rem :: "int \<Rightarrow> int \<Rightarrow> int" where
  "js_rem a b = sgn a * (\<bar>a\<bar> mod \<bar>b\<bar>)"

definition intToString :: "int \<Rightarrow> string" where
  "intToString i = (if i < 0 then ''-'' @ natToString (nat (- i)) else natToString (nat i))"

text \<open>
  \<open>Number.prototype.toFixed\<close> with \<open>f\<close> fraction digits, for a finite number below
  \<open>10 ^ 21\<close> in magnitude (above, JavaScript switches to the exponent notation): the
  integer \<open>n\<close> with \<open>n / 10 ^ f\<close> nearest to \<open>x\<close>, the larger one on a tie, printed with
  the point before its last \<open>f\<close> digits.
\<close>

definition toFixed_digits :: "nat \<Rightarrow> rat \<Rightarrow> string" where
  "toFixed_digits f x =
     (let n = nat \<lfloor>x * 10 ^ f + 1 / 2\<rfloor>;
          m = natToString n
      in if f = 0 then m
         else let m' = (if length m \<le> f then replicate (f + 1 - length m) CHR ''0'' @ m else m);
                  k = length m'
              in take (k - f) m' @ ''.'' @ drop (k - f) m')"

definition toFixed :: "nat \<Rightarrow> rat \<Rightarrow> string" where
  "toFixed f x = (if x < 0 then ''-'' @ toFixed_digits f (- x) else toFixed_digits f x)"

text \<open>
  Two results of the runtime are left to it, as parameters of the model: the unit index
  \<open>Math.floor(Math.log(bytes) / Math.log(1024))\<close> of the size formatter, which depends on
  the platform's logarithm, and the shortest decimal rendering that \<open>String\<close> gives a
  number that is not an integer.
\<close>

record runtime =
  unitIndex :: "nat \<Rightarrow> int"
  fracToString :: "rat \<Rightarrow> string"

definition numberToString :: "runtime \<Rightarrow> rat \<Rightarrow> string" where
  "numberToString rt x =
     (if of_int \<lfloor>x\<rfloor> = x then intToString \<lfloor>x\<rfloor> else fracToString rt x)"

section \<open>Result normalizer (services/mediainfo-image.ts)\<close>

subsection \<open>Raw tracks\<close>

text \<open>
  A raw track is what the engine's \<open>parseResultJson\<close> hands over: the fields of its
  integer list (\<open>Width\<close>, \<open>Height\<close>, \<open>Channels\<close>, \<open>BitDepth\<close>, \<open>FrameCount\<close>) and the
  byte and bit counts are non-negative integers, \<open>Duration\<close> and \<open>FrameRate\<close> are
  numbers, every other field the normalizer reads is a string, and \<open>Default\<close> is
  compared with a string and with a boolean.  An absent field is \<open>None\<close>; a numeric field
  that did not parse (\<open>NaN\<close>) is read only through truthiness tests, where it behaves as
  an absent one, and is represented as absent.
\<close>

datatype jsval = JString string | JBoolean bool | JNumber rat

record MediaInfoTrack =
  track_type :: string
  Format :: "string option"
  FileSize :: "nat option"
  Duration :: "rat option"
  OverallBitRate :: "nat option"
  FrameRate :: "rat option"
  FrameCount :: "nat option"
  Width :: "nat option"
  Height :: "nat option"
  BitDepth :: "nat option"
  Channels :: "nat option"
  BitRate :: "nat option"
  Codec :: "string option"
  CodecID :: "string option"
  Language :: "string option"
  Title :: "string option"
  Format_Profile :: "string option"
  Format_Commercial_IfAny :: "string option"
  Default :: "jsval option"

record MediaInfoResult =
  media :: "MediaInfoTrack list option"

text \<open>Truthiness of an optional string and of an optional number, and \<open>a || b\<close>.\<close>

definition truthy :: "string option \<Rightarrow> bool" where
  "truthy v = (case v of None \<Rightarrow> False | Some s \<Rightarrow> s \<noteq> [])"

definition truthy_nat :: "nat option \<Rightarrow> bool" where
  "truthy_nat v = (case v of None \<Rightarrow> False | Some n \<Rightarrow> n \<noteq> 0)"

definition truthy_num :: "rat option \<Rightarrow> bool" where
  "truthy_num v = (case v of None \<Rightarrow> False | Some x \<Rightarrow> x \<noteq> 0)"

definition or_else :: "string option \<Rightarrow> string option \<Rightarrow> string option" where
  "or_else a b = (if truthy a then a else b)"

subsection \<open>Language flags\<close>

text \<open>
  A flag glyph is a pair of regional-indicator letters; \<open>RegionalFlag ''US''\<close> stands for
  the pair U S.  The white flag is the placeholder of an unmapped language.
\<close>

datatype flag = RegionalFlag string | WhiteFlag

definition LANG_FLAGS :: "(string \<times> string) list" where
  "LANG_FLAGS =
   [(''en'', ''US''), (''eng'', ''US''), (''english'', ''US''), (''es'', ''ES''),
    (''spa'', ''ES''), (''spanish'', ''ES''), (''fr'', ''FR''), (''fre'', ''FR''),
    (''fra'', ''FR''), (''french'', ''FR''), (''de'', ''DE''), (''ger'', ''DE''),
    (''deu'', ''DE''), (''german'', ''DE''), (''it'', ''IT''), (''ita'', ''IT''),
    (''italian'', ''IT''), (''pt'', ''PT''), (''por'', ''PT''),
    (''portuguese'', ''PT''), (''ru'', ''RU''), (''rus'', ''RU''),
    (''russian'', ''RU''), (''ja'', ''JP''), (''jpn'', ''JP''), (''japanese'', ''JP''),
    (''ko'', ''KR''), (''kor'', ''KR''), (''korean'', ''KR''), (''zh'', ''CN''),
    (''chi'', ''CN''), (''zho'', ''CN''), (''chinese'', ''CN''), (''ar'', ''SA''),
    (''ara'', ''SA''), (''arabic'', ''SA''), (''hi'', ''IN''), (''hin'', ''IN''),
    (''hindi'', ''IN''), (''nl'', ''NL''), (''dut'', ''NL''), (''nld'', ''NL''),
    (''dutch'', ''NL''), (''pl'', ''PL''), (''pol'', ''PL''), (''polish'', ''PL''),
    (''tr'', ''TR''), (''tur'', ''TR''), (''turkish'', ''TR''), (''th'', ''TH''),
    (''tha'', ''TH''), (''thai'', ''TH''), (''vi'', ''VN''), (''vie'', ''VN''),
    (''vietnamese'', ''VN''), (''sv'', ''SE''), (''swe'', ''SE''),
    (''swedish'', ''SE''), (''da'', ''DK''), (''dan'', ''DK''), (''danish'', ''DK''),
    (''no'', ''NO''), (''nor'', ''NO''), (''norwegian'', ''NO''), (''fi'', ''FI''),
    (''fin'', ''FI''), (''finnish'', ''FI''), (''el'', ''GR''), (''gre'', ''GR''),
    (''ell'', ''GR''), (''greek'', ''GR''), (''he'', ''IL''), (''heb'', ''IL''),
    (''hebrew'', ''IL''), (''cs'', ''CZ''), (''cze'', ''CZ''), (''ces'', ''CZ''),
    (''czech'', ''CZ''), (''hu'', ''HU''), (''hun'', ''HU''), (''hungarian'', ''HU''),
    (''ro'', ''RO''), (''rum'', ''RO''), (''ron'', ''RO''), (''romanian'', ''RO''),
    (''bg'', ''BG''), (''bul'', ''BG''), (''bulgarian'', ''BG''), (''uk'', ''UA''),
    (''ukr'', ''UA''), (''ukrainian'', ''UA''), (''sk'', ''SK''), (''slo'', ''SK''),
    (''slk'', ''SK''), (''slovak'', ''SK''), (''sl'', ''SI''), (''slv'', ''SI''),
    (''slovenian'', ''SI''), (''hr'', ''HR''), (''hrv'', ''HR''),
    (''croatian'', ''HR''), (''sr'', ''RS''), (''srp'', ''RS''), (''serbian'', ''RS''),
    (''id'', ''ID''), (''ind'', ''ID''), (''indonesian'', ''ID''), (''ms'', ''MY''),
    (''may'', ''MY''), (''msa'', ''MY''), (''malay'', ''MY''), (''et'', ''EE''),
    (''est'', ''EE''), (''estonian'', ''EE''), (''lv'', ''LV''), (''lav'', ''LV''),
    (''latvian'', ''LV''), (''lt'', ''LT''), (''lit'', ''LT''),
    (''lithuanian'', ''LT'')]"

definition lower_char :: "char \<Rightarrow> char" where
  "lower_char c =
     (if 65 \<le> (of_char c :: nat) \<and> (of_char c :: nat) \<le> 90
      then char_of ((of_char c :: nat) + 32) else c)"

definition upper_char :: "char \<Rightarrow> char" where
  "upper_char c =
     (if 97 \<le> (of_char c :: nat) \<and> (of_char c :: nat) \<le> 122
      then char_of ((of_char c :: nat) - 32) else c)"

definition toLowerCase :: "string \<Rightarrow> string" where
  "toLowerCase s = map lower_char s"

definition toUpperCase :: "string \<Rightarrow> string" where
  "toUpperCase s = map upper_char s"

definition getLanguageFlag :: "string option \<Rightarrow> flag" where
  "getLanguageFlag lang =
     (if \<not> truthy lang then WhiteFlag
      else case map_of LANG_FLAGS (trim (toLowerCase (the lang))) of
             None \<Rightarrow> WhiteFlag
           | Some region \<Rightarrow> RegionalFlag region)"

subsection \<open>Formatting helpers\<close>

definition units :: "string list" where
  "units = [''B'', ''KiB'', ''MiB'', ''GiB'', ''TiB'']"

definition formatFileSize :: "runtime \<Rightarrow> nat \<Rightarrow> string" where
  "formatFileSize rt bytes =
     (if bytes = 0 then ''0 B''
      else let i = unitIndex rt bytes
           in toFixed 2 (fl (of_nat bytes / pow2 (10 * i))) @ '' '' @
              (if 0 \<le> i \<and> i < 5 then units ! nat i else ''undefined''))"

definition formatDuration :: "rat \<Rightarrow> string" where
  "formatDuration ms =
     (let totalSeconds = \<lfloor>fl (ms / 1000)\<rfloor>;
          hours = \<lfloor>fl (of_int totalSeconds / 3600)\<rfloor>;
          minutes = \<lfloor>fl (of_int (js_rem totalSeconds 3600) / 60)\<rfloor>;
          seconds = js_rem totalSeconds 60
      in if hours > 0 then intToString hours @ '' h '' @ intToString minutes @ '' min''
         else intToString minutes @ '' min '' @ intToString seconds @ '' sec'')"

definition formatBitrate :: "nat \<Rightarrow> string" where
  "formatBitrate bps =
     (if bps \<ge> 1000000 then toFixed 1 (fl (of_nat bps / 1000000)) @ '' Mb/s''
      else if bps \<ge> 1000 then intToString (Math_round (fl (of_nat bps / 1000))) @ '' kb/s''
      else natToString bps @ '' b/s'')"

subsection \<open>Aspect ratio\<close>

text \<open>The local recursive \<open>gcd\<close> of the video branch.\<close>

function gcd_js :: "nat \<Rightarrow> nat \<Rightarrow> nat" where
  "gcd_js a b = (if b = 0 then a else gcd_js b (a mod b))"
  by pat_completeness auto
termination
  by (relation "measure (\<lambda>(a, b). b)") auto

declare gcd_js.simps [simp del]

text \<open>The tolerance test \<open>Math.abs(width / height - c) < 0.1\<close>, in double arithmetic.\<close>

definition near_ratio :: "nat \<Rightarrow> nat \<Rightarrow> rat \<Rightarrow> bool" where
  "near_ratio width height c \<longleftrightarrow>
     \<bar>fl (fl (of_nat width / of_nat height) - fl c)\<bar> < fl (1 / 10)"

text \<open>
  The block that computes \<open>aspectRatio\<close> in the video branch.  The divisor divides both
  sides, so the two quotients are exact.
\<close>

definition aspectRatio :: "nat \<Rightarrow> nat \<Rightarrow> string" where
  "aspectRatio width height =
     (if width \<noteq> 0 \<and> height \<noteq> 0 then
        let divisor = gcd_js width height;
            ratioW = width div divisor;
            ratioH = height div divisor
        in if (ratioW = 16 \<and> ratioH = 9) \<or> (ratioW = 64 \<and> ratioH = 36) then ''16:9''
           else if (ratioW = 4 \<and> ratioH = 3) \<or> (ratioW = 16 \<and> ratioH = 12) then ''4:3''
           else if ratioW = 21 \<and> ratioH = 9 then ''21:9''
           else if near_ratio width height (235 / 100) then ''2.35:1''
           else if near_ratio width height (239 / 100) then ''2.39:1''
           else if near_ratio width height (185 / 100) then ''1.85:1''
           else if near_ratio width height (178 / 100) then ''16:9''
           else natToString ratioW @ '':'' @ natToString ratioH
      else ''Unknown'')"

subsection \<open>The normalized report\<close>

record General =
  general_container :: string
  general_size :: string
  general_runtime :: string
  general_bitrate :: string

record Video =
  video_codec :: string
  video_resolution :: string
  video_aspectRatio :: string
  video_frameRate :: string
  video_frameCount :: string
  video_bitrate :: string
  video_bitDepth :: string

record Audio =
  audio_index :: nat
  audio_language :: string
  audio_flag :: flag
  audio_codec :: string
  audio_channels :: string
  audio_bitrate :: string
  audio_title :: "string option"
  audio_isDefault :: bool

record Subtitle =
  sub_index :: nat
  sub_format :: string
  sub_language :: string
  sub_flag :: flag
  sub_title :: "string option"

record ParsedMediaInfo =
  filename :: string
  general :: General
  video :: "Video option"
  audio :: "Audio list"
  subtitles :: "Subtitle list"

text \<open>\<open>lang.charAt(0).toUpperCase() + lang.slice(1)\<close>.\<close>

definition capitalize :: "string \<Rightarrow> string" where
  "capitalize lang = toUpperCase (take 1 lang) @ drop 1 lang"

definition generalTrack :: "runtime \<Rightarrow> MediaInfoTrack \<Rightarrow> General \<Rightarrow> General" where
  "generalTrack rt track g =
     (let g1 = g\<lparr>general_container := the (or_else (Format track) (Some ''Unknown''))\<rparr>;
          g2 = (if truthy_nat (FileSize track)
                then g1\<lparr>general_size := formatFileSize rt (the (FileSize track))\<rparr> else g1);
          g3 = (if truthy_num (Duration track)
                then g2\<lparr>general_runtime := formatDuration (the (Duration track))\<rparr> else g2)
      in if truthy_nat (OverallBitRate track)
         then g3\<lparr>general_bitrate := formatBitrate (the (OverallBitRate track))\<rparr> else g3)"

definition videoTrack :: "runtime \<Rightarrow> MediaInfoTrack \<Rightarrow> Video" where
  "videoTrack rt track =
     (let width = (if truthy_nat (Width track) then the (Width track) else 0);
          height = (if truthy_nat (Height track) then the (Height track) else 0)
      in \<lparr>video_codec = the (or_else (or_else (Format track) (Codec track)) (Some ''Unknown'')),
          video_resolution =
            (if width \<noteq> 0 \<and> height \<noteq> 0 then natToString width @ ''x'' @ natToString height
             else ''Unknown''),
          video_aspectRatio = aspectRatio width height,
          video_frameRate =
            (if truthy_num (FrameRate track) then numberToString rt (the (FrameRate track))
             else ''Unknown''),
          video_frameCount =
            (if truthy_nat (FrameCount track) then natToString (the (FrameCount track))
             else ''Unknown''),
          video_bitrate =
            (if truthy_nat (BitRate track) then formatBitrate (the (BitRate track))
             else ''Unknown''),
          video_bitDepth =
            (if truthy_nat (BitDepth track) then natToString (the (BitDepth track)) @ '' bits''
             else ''8 bits'')\<rparr>)"

definition audioCodec :: "MediaInfoTrack \<Rightarrow> string" where
  "audioCodec track =
     (let audioFormat = the (or_else (Format track) (Some ''Unknown''));
          formatProfile = Format_Profile track;
          commercialName = Format_Commercial_IfAny track
      in if truthy formatProfile then
           if audioFormat = ''MLP FBA'' \<or> includes_str audioFormat ''TrueHD'' then
             (if (case commercialName of None \<Rightarrow> False | Some c \<Rightarrow> includes_str c ''Atmos'')
              then ''MLP FBA'' @ '' (Dolby Atmos)'' else ''MLP FBA'')
           else if audioFormat = ''DTS'' \<and> includes_str (the formatProfile) ''MA'' then ''DTS-HD MA''
           else audioFormat
         else audioFormat)"

definition audioTrack :: "MediaInfoTrack \<Rightarrow> nat \<Rightarrow> Audio" where
  "audioTrack track audioIndex =
     (let lang = the (or_else (Language track) (Some ''und''));
          channels = (if truthy_nat (Channels track) then the (Channels track) else 2);
          channelStr = (if channels = 1 then ''1ch'' else if channels = 2 then ''2ch''
                        else if channels = 6 then ''6ch'' else if channels = 8 then ''8ch''
                        else natToString channels @ ''ch'')
      in \<lparr>audio_index = audioIndex,
          audio_language = capitalize lang,
          audio_flag = getLanguageFlag (Some lang),
          audio_codec = audioCodec track,
          audio_channels = channelStr,
          audio_bitrate =
            (if truthy_nat (BitRate track) then formatBitrate (the (BitRate track))
             else ''Variable''),
          audio_title = (if truthy (Title track) then Title track else None),
          audio_isDefault =
            (Default track = Some (JString ''Yes'') \<or> Default track = Some (JBoolean True))\<rparr>)"

definition subtitleFormat :: "string \<Rightarrow> string" where
  "subtitleFormat subFormat =
     (if includes_str (toUpperCase subFormat) ''UTF-8'' then ''UTF-8''
      else if includes_str (toUpperCase subFormat) ''ASS'' then ''ASS''
      else if includes_str (toUpperCase subFormat) ''SRT'' then ''SRT''
      else if includes_str (toUpperCase subFormat) ''PGS'' then ''PGS''
      else if includes_str (toUpperCase subFormat) ''VOBSUB'' then ''VobSub''
      else subFormat)"

definition textTrack :: "MediaInfoTrack \<Rightarrow> nat \<Rightarrow> Subtitle" where
  "textTrack track subtitleIndex =
     (let subLang = the (or_else (Language track) (Some ''und''));
          subFormat = the (or_else (or_else (Format track) (CodecID track)) (Some ''Unknown''))
      in \<lparr>sub_index = subtitleIndex,
          sub_format = subtitleFormat subFormat,
          sub_language = capitalize subLang,
          sub_flag = getLanguageFlag (Some subLang),
          sub_title = (if truthy (Title track) then Title track else None)\<rparr>)"

text \<open>
  The loop body: the state is the report under construction and the two counters
  \<open>audioIndex\<close> and \<open>subtitleIndex\<close>; a track of another type is skipped.
\<close>

definition processTrack ::
  "runtime \<Rightarrow> ParsedMediaInfo \<times> nat \<times> nat \<Rightarrow> MediaInfoTrack \<Rightarrow> ParsedMediaInfo \<times> nat \<times> nat" where
  "processTrack rt st track =
     (case st of (parsed, audioIndex, subtitleIndex) \<Rightarrow>
        if track_type track = ''General'' then
          (parsed\<lparr>general := generalTrack rt track (general parsed)\<rparr>, audioIndex, subtitleIndex)
        else if track_type track = ''Video'' then
          (parsed\<lparr>video := Some (videoTrack rt track)\<rparr>, audioIndex, subtitleIndex)
        else if track_type track = ''Audio'' then
          (parsed\<lparr>audio := audio parsed @ [audioTrack track audioIndex]\<rparr>,
           audioIndex + 1, subtitleIndex)
        else if track_type track = ''Text'' then
          (parsed\<lparr>subtitles := subtitles parsed @ [textTrack track subtitleIndex]\<rparr>,
           audioIndex, subtitleIndex + 1)
        else st)"

definition initialParsed :: "string \<Rightarrow> ParsedMediaInfo" where
  "initialParsed name =
     \<lparr>filename = name,
      general = \<lparr>general_container = ''Unknown'', general_size = ''Unknown'',
                 general_runtime = ''Unknown'', general_bitrate = ''Unknown''\<rparr>,
      video = None, audio = [], subtitles = []\<rparr>"

definition parseMediaInfo :: "runtime \<Rightarrow> MediaInfoResult \<Rightarrow> string \<Rightarrow> ParsedMediaInfo" where
  "parseMediaInfo rt result name =
     (case media result of
        None \<Rightarrow> initialParsed name
      | Some tracks \<Rightarrow> fst (foldl (processTrack rt) (initialParsed name, 0, 0) tracks))"

section \<open>Analysis engine adapter (services/mediainfo.ts)\<close>

text \<open>
  The engine is an outside capability.  \<open>analyzeMediaBuffer\<close> calls it at six places,
  each at most once in a run, so a behaviour of the engine is what each of the six calls
  gives: a value or a throw.  The run is modelled with the list of calls made, in order.
  The timing fields of the diagnostics are left out.
\<close>

datatype engine_call = Create | SetOptions | AnalyzeData string | Reset | Inform | Close

record engine_behaviour =
  on_create :: "unit awaited"
  on_analyze_object :: "MediaInfoResult awaited"
  on_reset :: "unit awaited"
  on_analyze_text :: "unit awaited"
  on_inform :: "string awaited"
  on_close :: "unit awaited"

record AnalysisDiagnostics =
  bufferSize :: nat
  diag_filename :: string

record MediaInfoAnalysis =
  analysis_result :: MediaInfoResult
  analysis_text :: string
  diagnostics :: AnalysisDiagnostics

text \<open>The \<open>try\<close> block: the object pass, \<open>reset\<close>, the text pass, \<open>inform\<close>.\<close>

definition analyzeBody ::
  "engine_behaviour \<Rightarrow> AnalysisDiagnostics \<Rightarrow> MediaInfoAnalysis awaited \<times> engine_call list" where
  "analyzeBody engine diag =
     (case on_analyze_object engine of
        Rejects m \<Rightarrow> (Rejects m, [AnalyzeData ''object''])
      | Resolves r \<Rightarrow>
          (case on_reset engine of
             Rejects m \<Rightarrow> (Rejects m, [AnalyzeData ''object'', Reset])
           | Resolves _ \<Rightarrow>
               (case on_analyze_text engine of
                  Rejects m \<Rightarrow> (Rejects m, [AnalyzeData ''object'', Reset, AnalyzeData ''text''])
                | Resolves _ \<Rightarrow>
                    (case on_inform engine of
                       Rejects m \<Rightarrow>
                         (Rejects m, [AnalyzeData ''object'', Reset, AnalyzeData ''text'', Inform])
                     | Resolves t \<Rightarrow>
                         (Resolves \<lparr>analysis_result = r, analysis_text = t, diagnostics = diag\<rparr>,
                          [AnalyzeData ''object'', Reset, AnalyzeData ''text'', Inform])))))"

text \<open>
  \<open>try { ... } finally { mediaInfo.close() }\<close>: \<open>close\<close> runs after the block however it
  ended, and a throw of \<open>close\<close> itself replaces the outcome of the block.
\<close>

definition analyzeMediaBuffer ::
  "engine_behaviour \<Rightarrow> nat list \<Rightarrow> nat \<Rightarrow> string
     \<Rightarrow> MediaInfoAnalysis awaited \<times> engine_call list" where
  "analyzeMediaBuffer engine fileBuffer fileSize name =
     (let diag = \<lparr>bufferSize = length fileBuffer, diag_filename = name\<rparr>
      in case on_create engine of
           Rejects m \<Rightarrow> (Rejects m, [Create])
         | Resolves _ \<Rightarrow>
             (let (outcome, calls) = analyzeBody engine diag
              in (case on_close engine of
                    Rejects m \<Rightarrow> Rejects m
                  | Resolves _ \<Rightarrow> outcome,
                  [Create, SetOptions] @ calls @ [Close])))"

section \<open>Delivery of the text fallback (commands/mediainfo.ts)\<close>

text \<open>
  The clipboard glyph of the link line is U+1F4CB, two UTF-16 code units; two characters
  stand for them here, so that \<open>length\<close> counts what \<open>.length\<close> counts.
\<close>

definition clipboard :: string where
  "clipboard = [CHR 0xD8, CHR 0xDC]"

definition linkPart :: "PasteResult \<Rightarrow> string" where
  "linkPart pasteResult =
     (if success pasteResult \<and> truthy (url pasteResult)
      then [CHR 0x0A, CHR 0x0A] @ clipboard @ '' <b>Full Report:</b> '' @ the (url pasteResult)
      else [])"

definition truncationMarker :: string where
  "truncationMarker = [CHR 0x0A, CHR 0x0A] @ ''<i>[Output truncated]</i>''"

text \<open>
  The text sent when no image could be made: the three header lines, the styled text and
  the link line when the upload gave a URL.
\<close>

definition headerLines :: "string \<Rightarrow> General \<Rightarrow> string" where
  "headerLines name g =
     ''<b>Filename:</b> <code>'' @ name @ ''</code>'' @ [CHR 0x0A]
     @ ''<b>Size:</b> '' @ general_size g @ [CHR 0x0A]
     @ ''<b>Type:</b> '' @ general_container g @ [CHR 0x0A, CHR 0x0A]"

definition fullResponse :: "string \<Rightarrow> General \<Rightarrow> string \<Rightarrow> PasteResult \<Rightarrow> string" where
  "fullResponse name g styledText pasteResult =
     (let response = headerLines name g @ styledText
      in if success pasteResult \<and> truthy (url pasteResult)
         then response @ [CHR 0x0A, CHR 0x0A] @ clipboard @ '' <b>Full Report:</b> ''
              @ the (url pasteResult)
         else response)"

text \<open>
  The cut of a response longer than 4000.  \<open>substring(0, n)\<close> with a negative \<open>n\<close> is the
  empty string, as \<open>take\<close> of a truncated difference is.
\<close>

definition textFallback :: "string \<Rightarrow> General \<Rightarrow> string \<Rightarrow> PasteResult \<Rightarrow> string" where
  "textFallback name g styledText pasteResult =
     (let response = fullResponse name g styledText pasteResult
      in if length response > 4000
         then take (3900 - length (linkPart pasteResult)) response
              @ truncationMarker @ linkPart pasteResult
         else response)"

section \<open>Source resolver (commands/mediainfo.ts, utils/helpers.ts)\<close>

text \<open>
  \<open>new URL(input)\<close> is the platform's parser, a parameter of the model: it gives the
  parts of an absolute URL, or nothing where the constructor throws.
\<close>

record URL =
  protocol :: string
  hostname :: string
  pathname :: string

type_synonym url_parser = "string \<Rightarrow> URL option"

definition isDirectUrl :: "url_parser \<Rightarrow> string \<Rightarrow> bool" where
  "isDirectUrl parse input =
     (case parse input of
        None \<Rightarrow> False
      | Some u \<Rightarrow>
          if protocol u \<noteq> ''http:'' \<and> protocol u \<noteq> ''https:'' then False
          else if includes_str (hostname u) ''drive.google.com''
                  \<or> includes_str (hostname u) ''docs.google.com''
                  \<or> hostname u = ''drive.usercontent.google.com'' then False
          else True)"

text \<open>The character class \<open>[a-zA-Z0-9_-]\<close> and the class \<open>\d\<close>.\<close>

definition isIdChar :: "char \<Rightarrow> bool" where
  "isIdChar c \<longleftrightarrow>
     c \<in> set (''abcdefghijklmnopqrstuvwxyz'' @ ''ABCDEFGHIJKLMNOPQRSTUVWXYZ''
              @ ''0123456789'' @ ''_-'')"

definition isDigit :: "char \<Rightarrow> bool" where
  "isDigit c \<longleftrightarrow> c \<in> set ''0123456789''"

text \<open>
  \<open>s.match(/lit(cls+)/)\<close> for a literal \<open>lit\<close> and a character class \<open>cls\<close>: the
  leftmost place where the literal is followed by at least one character of the class;
  the group is the longest run of the class there.
\<close>

fun matchAfter :: "(char \<Rightarrow> bool) \<Rightarrow> string \<Rightarrow> string \<Rightarrow> string option" where
  "matchAfter cls lit [] = None"
| "matchAfter cls lit (c # cs) =
     (if startsWith (c # cs) lit \<and> takeWhile cls (drop (length lit) (c # cs)) \<noteq> []
      then Some (takeWhile cls (drop (length lit) (c # cs)))
      else matchAfter cls lit cs)"

text \<open>The test \<open>/^[a-zA-Z0-9_-]{25,}$/\<close>.\<close>

definition isBareFileId :: "string \<Rightarrow> bool" where
  "isBareFileId s \<longleftrightarrow> 25 \<le> length s \<and> list_all isIdChar s"

definition patterns :: "string list" where
  "patterns = [''/file/d/'', ''/open?id='', ''/uc?id='', ''id='', ''/folders/'', ''/d/'']"

fun firstMatch :: "string list \<Rightarrow> string \<Rightarrow> string option" where
  "firstMatch [] link = None"
| "firstMatch (pattern # rest) link =
     (case matchAfter isIdChar pattern link of
        Some m \<Rightarrow> Some m
      | None \<Rightarrow> firstMatch rest link)"

definition extractFileId :: "string \<Rightarrow> string option" where
  "extractFileId link =
     (if isBareFileId (trim link) then Some (trim link) else firstMatch patterns link)"

text \<open>
  The branch of \<open>mediainfoCommand\<close> that decides where the bytes come from; the reply
  ``could not extract a valid file ID'' is the error \<open>InvalidReference\<close>.
\<close>

datatype MediaSource = DirectUrl string | DriveReference string

datatype resolve_error = InvalidReference

definition resolveSource :: "url_parser \<Rightarrow> string \<Rightarrow> resolve_error + MediaSource" where
  "resolveSource parse args =
     (if isDirectUrl parse args then Inr (DirectUrl args)
      else case extractFileId args of
             None \<Rightarrow> Inl InvalidReference
           | Some fileId \<Rightarrow> Inr (DriveReference fileId))"

section \<open>Partial downloader (commands/mediainfo.ts)\<close>

text \<open>
  A size read from a header is \<open>parseInt(s, 10)\<close>: leading white space, a sign, then the
  longest run of digits; \<open>NaN\<close>, here \<open>None\<close>, when there is no digit.
\<close>

definition digit_value :: "char \<Rightarrow> nat" where
  "digit_value c = of_char c - 48"

definition digits_value :: "string \<Rightarrow> nat" where
  "digits_value ds = foldl (\<lambda>n c. 10 * n + digit_value c) 0 ds"

definition parseInt :: "string \<Rightarrow> int option" where
  "parseInt s =
     (let t = dropWhile isWhiteSpace s;
          negative = (take 1 t = ''-'');
          u = (if take 1 t = ''-'' \<or> take 1 t = ''+'' then drop 1 t else t);
          ds = takeWhile isDigit u
      in if ds = [] then None
         else Some (if negative then - int (digits_value ds) else int (digits_value ds)))"

text \<open>Header names are case-insensitive; the model keeps them in lower case.\<close>

definition header :: "HttpResponse \<Rightarrow> string \<Rightarrow> string option" where
  "header r name = map_of (headers r) name"

record DownloadResult =
  buffer :: "nat list"
  fileSize :: int
  download_filename :: string

definition MAX_DOWNLOAD_SIZE :: nat where
  "MAX_DOWNLOAD_SIZE = 10 * 1024 * 1024"

definition headRequest :: "string \<Rightarrow> HttpRequest" where
  "headRequest u = \<lparr>req_method = ''HEAD'', req_url = u, req_headers = [], req_body = NoBody\<rparr>"

definition getRequest :: "string \<Rightarrow> (string \<times> string) list \<Rightarrow> HttpRequest" where
  "getRequest u hs = \<lparr>req_method = ''GET'', req_url = u, req_headers = hs, req_body = NoBody\<rparr>"

text \<open>The size learnt from the \<open>HEAD\<close> request; 0 when it failed or gave no length.\<close>

definition headSize :: "network \<Rightarrow> string \<Rightarrow> int option" where
  "headSize fetch u =
     (case fetch (headRequest u) of
        Rejects m \<Rightarrow> Some 0
      | Resolves headResponse \<Rightarrow>
          if ok headResponse \<and> truthy (header headResponse ''content-length'')
          then parseInt (the (header headResponse ''content-length''))
          else Some 0)"

text \<open>The size after the \<open>GET\<close>, updated from the response only when it is still 0.\<close>

definition responseSize :: "int option \<Rightarrow> HttpResponse \<Rightarrow> int option" where
  "responseSize size0 response =
     (if size0 = Some 0 then
        if truthy (header response ''content-range'') then
          (case matchAfter isDigit ''/'' (the (header response ''content-range'')) of
             Some ds \<Rightarrow> parseInt ds
           | None \<Rightarrow> size0)
        else if truthy (header response ''content-length'')
        then parseInt (the (header response ''content-length''))
        else size0
      else size0)"

text \<open>
  \<open>downloadFromUrl\<close>.  A comparison with \<open>NaN\<close> is false and \<open>NaN\<close> is falsy.  Every
  throw inside is caught and gives \<open>null\<close>, here \<open>None\<close>.  The file name comes from
  \<open>extractFilenameFromUrl\<close>, which rests on the platform's URL parser and percent
  decoder and is a parameter here.
\<close>

definition downloadFromUrl ::
  "network \<Rightarrow> (string \<Rightarrow> (string \<times> string) list \<Rightarrow> string) \<Rightarrow> string \<Rightarrow> nat
     \<Rightarrow> DownloadResult option" where
  "downloadFromUrl fetch extractFilenameFromUrl u maxBytes =
     (let size0 = headSize fetch u;
          hs = (case size0 of
                  Some n \<Rightarrow> if n > int maxBytes
                            then [(''Range'', ''bytes=0-'' @ intToString (int maxBytes - 1))]
                            else []
                | None \<Rightarrow> [])
      in case fetch (getRequest u hs) of
           Rejects m \<Rightarrow> None
         | Resolves response \<Rightarrow>
             if \<not> ok response \<and> status response \<noteq> 206 then None
             else
               let size1 = responseSize size0 response
               in case arrayBuffer response of
                    Rejects m \<Rightarrow> None
                  | Resolves bytes \<Rightarrow>
                      Some \<lparr>buffer = bytes,
                            fileSize = (case size1 of
                                          None \<Rightarrow> int (length bytes)
                                        | Some n \<Rightarrow> if n \<noteq> 0 then n else int (length bytes)),
                            download_filename = extractFilenameFromUrl u (headers response)\<rparr>)"

subsection \<open>What counts as an accepted upload\<close>

text \<open>
  An attempt is accepted when the response has a success status and its body has the
  provider's shape: for the three text providers the trimmed body is a non-empty URL
  with the provider's prefix, for hastebin the JSON body has a non-empty \<open>key\<close>.  The
  value is the URL the caller is given.
\<close>

definition text_shape :: "string \<Rightarrow> HttpResponse awaited \<Rightarrow> string option" where
  "text_shape pre fetched =
     (case fetched of
        Rejects m \<Rightarrow> None
      | Resolves r \<Rightarrow>
          if ok r then
            (case body_text r of
               Rejects m \<Rightarrow> None
             | Resolves t \<Rightarrow> if trim t \<noteq> [] \<and> startsWith (trim t) pre then Some (trim t) else None)
          else None)"

definition key_shape :: "HttpResponse awaited \<Rightarrow> string option" where
  "key_shape fetched =
     (case fetched of
        Rejects m \<Rightarrow> None
      | Resolves r \<Rightarrow>
          if ok r then
            (case json_key r of
               Rejects m \<Rightarrow> None
             | Resolves None \<Rightarrow> None
             | Resolves (Some k) \<Rightarrow> if k \<noteq> [] then Some (''https://hastebin.com/'' @ k) else None)
          else None)"

text \<open>Two sample networks: one on which only the third provider answers, one that is down.\<close>

definition flaky_network :: network where
  "flaky_network q =
     (if req_url q = ''https://paste.rs/'' then Rejects ''fetch failed''
      else if req_url q = ''https://0x0.st'' then
        Resolves \<lparr>status = 200, statusText = ''OK'', headers = [],
                  body_text = Resolves (''https://0x0.st/abc.txt'' @ [CHR 0x0A]),
                  json_key = Rejects ''Unexpected token h in JSON'',
                  arrayBuffer = Resolves []\<rparr>
      else
        Resolves \<lparr>status = 503, statusText = ''Service Unavailable'', headers = [],
                  body_text = Resolves ''busy'', json_key = Rejects ''Unexpected token b in JSON'',
                  arrayBuffer = Resolves []\<rparr>)"

definition dead_network :: network where
  "dead_network q = Rejects ''offline''"


section \<open>Sample inputs\<close>

text \<open>A track with no field but its type, a runtime and an engine that answers every call.\<close>

definition emptyTrack :: "string \<Rightarrow> MediaInfoTrack" where
  "emptyTrack ty =
     \<lparr>track_type = ty, Format = None, FileSize = None, Duration = None, OverallBitRate = None,
      FrameRate = None, FrameCount = None, Width = None, Height = None, BitDepth = None,
      Channels = None, BitRate = None, Codec = None, CodecID = None, Language = None,
      Title = None, Format_Profile = None, Format_Commercial_IfAny = None, Default = None\<rparr>"

definition sampleRuntime :: runtime where
  "sampleRuntime = \<lparr>unitIndex = (\<lambda>bytes. 0), fracToString = (\<lambda>x. ''?'')\<rparr>"

definition healthyEngine :: engine_behaviour where
  "healthyEngine =
     \<lparr>on_create = Resolves (), on_analyze_object = Resolves \<lparr>media = Some []\<rparr>,
      on_reset = Resolves (), on_analyze_text = Resolves (), on_inform = Resolves ''General'',
      on_close = Resolves ()\<rparr>"


text \<open>The general section of a report with no General track, for sample inputs.\<close>

definition unknownGeneral :: General where
  "unknownGeneral = \<lparr>general_container = ''Unknown'', general_size = ''Unknown'',
     general_runtime = ''Unknown'', general_bitrate = ''Unknown''\<rparr>"


text \<open>The report of a file in which nothing was found, and two audio tracks.\<close>

definition unknownReport :: "string \<Rightarrow> ParsedMediaInfo" where
  "unknownReport name =
     \<lparr>filename = name,
      general = \<lparr>general_container = ''Unknown'', general_size = ''Unknown'',
                 general_runtime = ''Unknown'', general_bitrate = ''Unknown''\<rparr>,
      video = None, audio = [], subtitles = []\<rparr>"

definition trueHdAtmos :: MediaInfoTrack where
  "trueHdAtmos = (emptyTrack ''Audio'')
     \<lparr>Format := Some ''MLP FBA'', Format_Profile := Some ''16-ch'',
      Format_Commercial_IfAny := Some ''Dolby TrueHD with Dolby Atmos''\<rparr>"

definition dtsMaster :: MediaInfoTrack where
  "dtsMaster = (emptyTrack ''Audio'')\<lparr>Format := Some ''DTS'', Format_Profile := Some ''MA / Core''\<rparr>"


text \<open>The hosts that \<open>isDirectUrl\<close> excludes, and the three domains themselves.\<close>

definition excludedHost :: "string \<Rightarrow> bool" where
  "excludedHost h \<longleftrightarrow>
     includes_str h ''drive.google.com'' \<or> includes_str h ''docs.google.com''
     \<or> h = ''drive.usercontent.google.com''"

definition cloudStorageDomains :: "string list" where
  "cloudStorageDomains = [''drive.google.com'', ''docs.google.com'', ''drive.usercontent.google.com'']"

text \<open>A server that refuses \<open>HEAD\<close> and serves a file one byte longer than the cap.\<close>

definition noHeadServer :: network where
  "noHeadServer q =
     (if req_method q = ''HEAD'' then
        Resolves \<lparr>status = 405, statusText = ''Method Not Allowed'', headers = [],
                  body_text = Resolves [], json_key = Rejects ''Unexpected end of JSON input'',
                  arrayBuffer = Resolves []\<rparr>
      else
        Resolves \<lparr>status = 200, statusText = ''OK'', headers = [],
                  body_text = Rejects ''not text'', json_key = Rejects ''not JSON'',
                  arrayBuffer = Resolves (replicate (MAX_DOWNLOAD_SIZE + 1) 0)\<rparr>)"

text \<open>A URL parser that knows four URLs.\<close>

definition sampleParser :: url_parser where
  "sampleParser s =
     (if s = ''https://example.com/video.mp4'' then
        Some \<lparr>protocol = ''https:'', hostname = ''example.com'', pathname = ''/video.mp4''\<rparr>
      else if s = ''https://drive.google.com/file/d/1ABC123def456/view'' then
        Some \<lparr>protocol = ''https:'', hostname = ''drive.google.com'',
              pathname = ''/file/d/1ABC123def456/view''\<rparr>
      else if s = ''https://drive.google.com.example.org/a.mp4'' then
        Some \<lparr>protocol = ''https:'', hostname = ''drive.google.com.example.org'',
              pathname = ''/a.mp4''\<rparr>
      else if s = ''ftp://example.com/video.mp4'' then
        Some \<lparr>protocol = ''ftp:'', hostname = ''example.com'', pathname = ''/video.mp4''\<rparr>
      else None)"


section \<open>The reference definition of the aspect ratio\<close>

text \<open>
  The tolerance test \<open>|w / h - c| < 0.1\<close> of the specification, read in double arithmetic,
  and what that comes to in exact arithmetic: the strict test, and also the ratios exactly
  \<open>0.1\<close> above \<open>1.85\<close> and \<open>1.78\<close>, which the doubles round inside.
\<close>

definition tolerance_double :: "nat \<Rightarrow> nat \<Rightarrow> rat \<Rightarrow> bool" where
  "tolerance_double width height c \<longleftrightarrow>
     \<bar>fl (fl (of_nat width / of_nat height) - fl c)\<bar> < fl (1 / 10)"

definition tolerance_exact :: "nat \<Rightarrow> nat \<Rightarrow> rat \<Rightarrow> bool" where
  "tolerance_exact width height c \<longleftrightarrow>
     (let x = of_nat width / of_nat height
      in \<bar>x - c\<bar> < 1 / 10 \<or> (x - c = 1 / 10 \<and> (c = 185 / 100 \<or> c = 178 / 100)))"

text \<open>
  The aspect ratio as the specification words it, for a given bucket test: the pair
  reduced by the greatest common divisor, the canonical pairs, the four buckets in order,
  and the reduced pair.
\<close>

definition aspectRatio_spec :: "(rat \<Rightarrow> bool) \<Rightarrow> nat \<Rightarrow> nat \<Rightarrow> string" where
  "aspectRatio_spec bucket width height =
     (let g = gcd width height;
          w = width div g;
          h = height div g
      in if (w, h) = (16, 9) \<or> (w, h) = (64, 36) then ''16:9''
         else if (w, h) = (4, 3) \<or> (w, h) = (16, 12) then ''4:3''
         else if (w, h) = (21, 9) then ''21:9''
         else if bucket (235 / 100) then ''2.35:1''
         else if bucket (239 / 100) then ''2.39:1''
         else if bucket (185 / 100) then ''1.85:1''
         else if bucket (178 / 100) then ''16:9''
         else natToString w @ '':'' @ natToString h)"


section \<open>Properties of the paste chain\<close>

lemma text_provider_accepts:
  "text_shape pre f = Some u \<Longrightarrow> text_provider name pre f = paste_ok u"
  by (auto simp: text_provider_def text_shape_def Let_def split: awaited.splits if_splits)

lemma text_provider_refuses:
  "text_shape pre f = None \<Longrightarrow> \<exists>m. text_provider name pre f = paste_failed m"
  by (auto simp: text_provider_def text_shape_def Let_def split: awaited.splits if_splits)

lemma hastebin_accepts:
  "key_shape (fetch (hastebinRequest content)) = Some u \<Longrightarrow>
     fst (uploadToHastebin fetch content sent) = paste_ok u"
  by (auto simp: uploadToHastebin_def key_shape_def split: awaited.splits option.splits if_splits)

lemma hastebin_refuses:
  "key_shape (fetch (hastebinRequest content)) = None \<Longrightarrow>
     \<exists>m. fst (uploadToHastebin fetch content sent) = paste_failed m"
  by (auto simp: uploadToHastebin_def key_shape_def split: awaited.splits option.splits if_splits)

lemma includes_str_mid: "includes_str (a @ m @ b) m"
proof (induction a)
  case Nil
  have sw: "startsWith (m @ b) m" by (simp add: startsWith_def)
  show ?case
  proof (cases "m @ b")
    case Nil
    then show ?thesis by simp
  next
    case (Cons c cs)
    with sw show ?thesis by simp
  qed
next
  case (Cons c a)
  then show ?case by simp
qed

lemma includes_str_end: "includes_str (a @ m) m"
  using includes_str_mid [of a m "[]"] by simp

lemma chain_eq:
  "uploadToPastebin fetch content title expiryDays [] =
    (let q1 = pasteRsRequest content; q2 = dpasteRequest content title expiryDays;
         q3 = zeroRequest content; q4 = hastebinRequest content;
         r1 = fst (uploadToPasteRs fetch content []);
         r2 = fst (uploadToDpaste fetch content title expiryDays []);
         r3 = fst (uploadTo0x0 fetch content []);
         r4 = fst (uploadToHastebin fetch content [])
     in if success r1 then (r1, [q1])
        else if success r2 then (r2, [q1, q2])
        else if success r3 then (r3, [q1, q2, q3])
        else if success r4 then (r4, [q1, q2, q3, q4])
        else (\<lparr>success = False, url = None,
               error = Some (''All paste services failed: '' @
                 ''paste.rs: '' @ template (error r1) @ ''; '' @
                 ''dpaste.org: '' @ template (error r2) @ ''; '' @
                 ''0x0.st: '' @ template (error r3) @ ''; '' @
                 ''hastebin: '' @ template (error r4))\<rparr>, [q1, q2, q3, q4]))"
  by (simp add: uploadToPastebin_def uploadToPasteRs_def uploadToDpaste_def uploadTo0x0_def
      uploadToHastebin_def Let_def)

lemma requests_distinct:
  "distinct [pasteRsRequest content, dpasteRequest content title expiryDays,
             zeroRequest content, hastebinRequest content]"
  by (simp add: pasteRsRequest_def dpasteRequest_def zeroRequest_def hastebinRequest_def)

lemma chain_cases:
  fixes fetch :: network
  assumes q: "q1 = pasteRsRequest content" "q2 = dpasteRequest content title expiryDays"
             "q3 = zeroRequest content" "q4 = hastebinRequest content"
    and a: "a1 = text_shape ''https://paste.rs/'' (fetch q1)"
           "a2 = text_shape ''https://dpaste.org/'' (fetch q2)"
           "a3 = text_shape ''https://0x0.st/'' (fetch q3)"
           "a4 = key_shape (fetch q4)"
    and e: "e1 = template (error (fst (uploadToPasteRs fetch content [])))"
           "e2 = template (error (fst (uploadToDpaste fetch content title expiryDays [])))"
           "e3 = template (error (fst (uploadTo0x0 fetch content [])))"
           "e4 = template (error (fst (uploadToHastebin fetch content [])))"
    and run: "(r, sent) = uploadToPastebin fetch content title expiryDays []"
  shows "distinct [q1, q2, q3, q4]"
    and "a1 = Some u \<Longrightarrow> r = paste_ok u \<and> sent = [q1]"
    and "a1 = None \<Longrightarrow> a2 = Some u \<Longrightarrow> r = paste_ok u \<and> sent = [q1, q2]"
    and "a1 = None \<Longrightarrow> a2 = None \<Longrightarrow> a3 = Some u \<Longrightarrow> r = paste_ok u \<and> sent = [q1, q2, q3]"
    and "a1 = None \<Longrightarrow> a2 = None \<Longrightarrow> a3 = None \<Longrightarrow> a4 = Some u \<Longrightarrow>
           r = paste_ok u \<and> sent = [q1, q2, q3, q4]"
    and "a1 = None \<Longrightarrow> a2 = None \<Longrightarrow> a3 = None \<Longrightarrow> a4 = None \<Longrightarrow>
           sent = [q1, q2, q3, q4] \<and> \<not> success r \<and> url r = None \<and>
           (\<exists>msg. error r = Some msg \<and> includes_str msg e1 \<and> includes_str msg e2 \<and>
                  includes_str msg e3 \<and> includes_str msg e4)"
proof -
  note run' = run [unfolded chain_eq Let_def, folded q]
  have p1: "fst (uploadToPasteRs fetch content []) = text_provider ''paste.rs'' ''https://paste.rs/'' (fetch q1)"
    by (simp add: uploadToPasteRs_def q)
  have p2: "fst (uploadToDpaste fetch content title expiryDays []) = text_provider ''dpaste.org'' ''https://dpaste.org/'' (fetch q2)"
    by (simp add: uploadToDpaste_def q)
  have p3: "fst (uploadTo0x0 fetch content []) = text_provider ''0x0.st'' ''https://0x0.st/'' (fetch q3)"
    by (simp add: uploadTo0x0_def q)
  show "distinct [q1, q2, q3, q4]" unfolding q by (rule requests_distinct)
  show "r = paste_ok u \<and> sent = [q1]" if "a1 = Some u"
    using that run' text_provider_accepts [of "''https://paste.rs/''" "fetch q1" u "''paste.rs''"]
    by (simp add: p1 a paste_ok_def)
  show "r = paste_ok u \<and> sent = [q1, q2]" if "a1 = None" "a2 = Some u"
    using that run' text_provider_refuses [of "''https://paste.rs/''" "fetch q1" "''paste.rs''"]
       text_provider_accepts [of "''https://dpaste.org/''" "fetch q2" u "''dpaste.org''"]
    by (auto simp add: p1 p2 a paste_ok_def paste_failed_def)
  show "r = paste_ok u \<and> sent = [q1, q2, q3]" if "a1 = None" "a2 = None" "a3 = Some u"
    using that run' text_provider_refuses [of "''https://paste.rs/''" "fetch q1" "''paste.rs''"]
       text_provider_refuses [of "''https://dpaste.org/''" "fetch q2" "''dpaste.org''"]
       text_provider_accepts [of "''https://0x0.st/''" "fetch q3" u "''0x0.st''"]
    by (auto simp add: p1 p2 p3 a paste_ok_def paste_failed_def)
  show "r = paste_ok u \<and> sent = [q1, q2, q3, q4]" if "a1 = None" "a2 = None" "a3 = None" "a4 = Some u"
    using that run' text_provider_refuses [of "''https://paste.rs/''" "fetch q1" "''paste.rs''"]
       text_provider_refuses [of "''https://dpaste.org/''" "fetch q2" "''dpaste.org''"]
       text_provider_refuses [of "''https://0x0.st/''" "fetch q3" "''0x0.st''"]
       hastebin_accepts [of fetch content u "[]"]
    by (auto simp add: p1 p2 p3 a q paste_ok_def paste_failed_def)
  show "sent = [q1, q2, q3, q4] \<and> \<not> success r \<and> url r = None \<and>
           (\<exists>msg. error r = Some msg \<and> includes_str msg e1 \<and> includes_str msg e2 \<and>
                  includes_str msg e3 \<and> includes_str msg e4)"
    if n: "a1 = None" "a2 = None" "a3 = None" "a4 = None"
  proof -
    obtain m1 m2 m3 m4 where m:
      "fst (uploadToPasteRs fetch content []) = paste_failed m1"
      "fst (uploadToDpaste fetch content title expiryDays []) = paste_failed m2"
      "fst (uploadTo0x0 fetch content []) = paste_failed m3"
      "fst (uploadToHastebin fetch content []) = paste_failed m4"
      using n text_provider_refuses [of "''https://paste.rs/''" "fetch q1" "''paste.rs''"]
       text_provider_refuses [of "''https://dpaste.org/''" "fetch q2" "''dpaste.org''"]
       text_provider_refuses [of "''https://0x0.st/''" "fetch q3" "''0x0.st''"]
       hastebin_refuses [of fetch content "[]"]
      by (auto simp add: p1 p2 p3 a q)
    have es: "e1 = m1" "e2 = m2" "e3 = m3" "e4 = m4"
      by (simp_all add: e m paste_failed_def template_def)
    let ?msg = "''All paste services failed: '' @ ''paste.rs: '' @ m1 @ ''; '' @
                 ''dpaste.org: '' @ m2 @ ''; '' @ ''0x0.st: '' @ m3 @ ''; '' @ ''hastebin: '' @ m4"
    have r: "r = \<lparr>success = False, url = None, error = Some ?msg\<rparr>" and s: "sent = [q1, q2, q3, q4]"
      using run' by (simp_all add: m paste_failed_def template_def)
    have i1: "includes_str ?msg m1"
      using includes_str_mid [of "''All paste services failed: '' @ ''paste.rs: ''" m1] by simp
    have i2: "includes_str ?msg m2"
      using includes_str_mid [of "''All paste services failed: '' @ ''paste.rs: '' @ m1 @ ''; '' @ ''dpaste.org: ''" m2] by simp
    have i3: "includes_str ?msg m3"
      using includes_str_mid [of "''All paste services failed: '' @ ''paste.rs: '' @ m1 @ ''; '' @ ''dpaste.org: '' @ m2 @ ''; '' @ ''0x0.st: ''" m3] by simp
    have i4: "includes_str ?msg m4"
      using includes_str_end [of "''All paste services failed: '' @ ''paste.rs: '' @ m1 @ ''; '' @ ''dpaste.org: '' @ m2 @ ''; '' @ ''0x0.st: '' @ m3 @ ''; '' @ ''hastebin: ''" m4] by simp
    show ?thesis using r s i1 i2 i3 i4 by (simp add: es)
  qed
qed


text \<open>
  Claim C1.  \<open>uploadToPastebin\<close> sends to paste.rs, dpaste.org, 0x0.st and hastebin in
  this order; an attempt succeeds exactly when the response has a success status and a
  body of the provider's shape; the run stops at the first accepted attempt, returns its
  URL and has sent nothing to the later providers (the four requests are distinct, so
  none is sent twice); when all four are refused the result is one failure whose message
  contains the message of each of the four attempts.
\<close>

theorem uploadToPastebin_ordered_fallback:
  fixes fetch :: network and content :: string and title :: "string option" and expiryDays :: nat
  defines "q1 \<equiv> pasteRsRequest content"
    and "q2 \<equiv> dpasteRequest content title expiryDays"
    and "q3 \<equiv> zeroRequest content"
    and "q4 \<equiv> hastebinRequest content"
  defines "a1 \<equiv> text_shape ''https://paste.rs/'' (fetch q1)"
    and "a2 \<equiv> text_shape ''https://dpaste.org/'' (fetch q2)"
    and "a3 \<equiv> text_shape ''https://0x0.st/'' (fetch q3)"
    and "a4 \<equiv> key_shape (fetch q4)"
  defines "e1 \<equiv> template (error (fst (uploadToPasteRs fetch content [])))"
    and "e2 \<equiv> template (error (fst (uploadToDpaste fetch content title expiryDays [])))"
    and "e3 \<equiv> template (error (fst (uploadTo0x0 fetch content [])))"
    and "e4 \<equiv> template (error (fst (uploadToHastebin fetch content [])))"
  defines "run \<equiv> uploadToPastebin fetch content title expiryDays []"
  shows "distinct [q1, q2, q3, q4] \<and>
    (\<forall>u. a1 = Some u \<longrightarrow> run = (paste_ok u, [q1])) \<and>
    (\<forall>u. a1 = None \<and> a2 = Some u \<longrightarrow> run = (paste_ok u, [q1, q2])) \<and>
    (\<forall>u. a1 = None \<and> a2 = None \<and> a3 = Some u \<longrightarrow> run = (paste_ok u, [q1, q2, q3])) \<and>
    (\<forall>u. a1 = None \<and> a2 = None \<and> a3 = None \<and> a4 = Some u \<longrightarrow>
           run = (paste_ok u, [q1, q2, q3, q4])) \<and>
    (a1 = None \<and> a2 = None \<and> a3 = None \<and> a4 = None \<longrightarrow>
       (\<exists>msg. run = (paste_failed msg, [q1, q2, q3, q4]) \<and>
          includes_str msg e1 \<and> includes_str msg e2 \<and> includes_str msg e3 \<and> includes_str msg e4))"
proof -
  obtain r sent where rs: "(r, sent) = run" by (metis surj_pair)
  have q: "q1 = pasteRsRequest content" "q2 = dpasteRequest content title expiryDays"
      "q3 = zeroRequest content" "q4 = hastebinRequest content"
    by (simp_all add: q1_def q2_def q3_def q4_def)
  have a: "a1 = text_shape ''https://paste.rs/'' (fetch q1)"
      "a2 = text_shape ''https://dpaste.org/'' (fetch q2)"
      "a3 = text_shape ''https://0x0.st/'' (fetch q3)" "a4 = key_shape (fetch q4)"
    by (simp_all add: a1_def a2_def a3_def a4_def)
  have e: "e1 = template (error (fst (uploadToPasteRs fetch content [])))"
      "e2 = template (error (fst (uploadToDpaste fetch content title expiryDays [])))"
      "e3 = template (error (fst (uploadTo0x0 fetch content [])))"
      "e4 = template (error (fst (uploadToHastebin fetch content [])))"
    by (simp_all add: e1_def e2_def e3_def e4_def)
  have rs': "(r, sent) = uploadToPastebin fetch content title expiryDays []"
    using rs by (simp add: run_def)
  note c = chain_cases [OF q a e rs']
  have "a1 = None \<and> a2 = None \<and> a3 = None \<and> a4 = None \<longrightarrow>
       (\<exists>msg. run = (paste_failed msg, [q1, q2, q3, q4]) \<and>
          includes_str msg e1 \<and> includes_str msg e2 \<and> includes_str msg e3 \<and> includes_str msg e4)"
  proof
    assume n: "a1 = None \<and> a2 = None \<and> a3 = None \<and> a4 = None"
    from c(6) n obtain msg where "sent = [q1, q2, q3, q4]" "\<not> success r" "url r = None"
       "error r = Some msg" "includes_str msg e1" "includes_str msg e2"
       "includes_str msg e3" "includes_str msg e4" by blast
    then show "\<exists>msg. run = (paste_failed msg, [q1, q2, q3, q4]) \<and>
          includes_str msg e1 \<and> includes_str msg e2 \<and> includes_str msg e3 \<and> includes_str msg e4"
      using rs by (intro exI [of _ msg], cases r) (auto simp add: paste_failed_def)
  qed
  moreover have "distinct [q1, q2, q3, q4]" by (rule c(1))
  moreover have "\<forall>u. a1 = Some u \<longrightarrow> run = (paste_ok u, [q1])"
    using c(2) rs by auto
  moreover have "\<forall>u. a1 = None \<and> a2 = Some u \<longrightarrow> run = (paste_ok u, [q1, q2])"
    using c(3) rs by auto
  moreover have "\<forall>u. a1 = None \<and> a2 = None \<and> a3 = Some u \<longrightarrow> run = (paste_ok u, [q1, q2, q3])"
    using c(4) rs by auto
  moreover have "\<forall>u. a1 = None \<and> a2 = None \<and> a3 = None \<and> a4 = Some u \<longrightarrow>
           run = (paste_ok u, [q1, q2, q3, q4])"
    using c(5) rs by auto
  ultimately show ?thesis by blast
qed


theorem uploadToPastebin_ordered_fallback_witness:
  "uploadToPastebin flaky_network ''report'' (Some ''MediaInfo: a.mkv'') 7 [] =
     (paste_ok ''https://0x0.st/abc.txt'',
      [pasteRsRequest ''report'', dpasteRequest ''report'' (Some ''MediaInfo: a.mkv'') 7,
       zeroRequest ''report''])
   \<and> (\<exists>msg. uploadToPastebin dead_network ''report'' None 7 [] =
          (paste_failed msg,
           [pasteRsRequest ''report'', dpasteRequest ''report'' None 7,
            zeroRequest ''report'', hastebinRequest ''report'']) \<and>
        includes_str msg ''offline'')"
proof -
  have s: "text_shape ''https://paste.rs/'' (flaky_network (pasteRsRequest ''report'')) = None"
     "text_shape ''https://dpaste.org/'' (flaky_network (dpasteRequest ''report'' (Some ''MediaInfo: a.mkv'') 7)) = None"
     "text_shape ''https://0x0.st/'' (flaky_network (zeroRequest ''report'')) = Some ''https://0x0.st/abc.txt''"
    by (simp_all add: text_shape_def flaky_network_def pasteRsRequest_def dpasteRequest_def
        zeroRequest_def ok_def trim_def isWhiteSpace_def startsWith_def)
  have d: "text_shape ''https://paste.rs/'' (dead_network (pasteRsRequest ''report'')) = None"
     "text_shape ''https://dpaste.org/'' (dead_network (dpasteRequest ''report'' None 7)) = None"
     "text_shape ''https://0x0.st/'' (dead_network (zeroRequest ''report'')) = None"
     "key_shape (dead_network (hastebinRequest ''report'')) = None"
     "template (error (fst (uploadToPasteRs dead_network ''report'' []))) = ''offline''"
    by (simp_all add: text_shape_def key_shape_def dead_network_def uploadToPasteRs_def
        text_provider_def paste_failed_def template_def)
  show ?thesis
    using uploadToPastebin_ordered_fallback [where fetch = flaky_network and content = "''report''"
          and title = "Some ''MediaInfo: a.mkv''" and expiryDays = 7]
      uploadToPastebin_ordered_fallback [where fetch = dead_network and content = "''report''"
          and title = None and expiryDays = 7]
    unfolding s d by blast
qed


section \<open>Properties of the engine adapter\<close>

lemma analyzeBody_no_close: "Close \<notin> set (snd (analyzeBody engine diag))"
  by (simp add: analyzeBody_def split: awaited.splits)

text \<open>
  Claim C9.  Once the engine instance exists, every run of \<open>analyzeMediaBuffer\<close> calls
  \<open>close\<close> exactly once, as its last call: whether both passes succeed, the object
  pass fails, \<open>reset\<close> fails, the text pass fails or \<open>inform\<close> fails.
\<close>

theorem analyzeMediaBuffer_closes_once:
  "on_create engine = Resolves () \<longrightarrow>
     (\<exists>calls. snd (analyzeMediaBuffer engine fileBuffer logicalSize name)
                = [Create, SetOptions] @ calls @ [Close]
              \<and> Close \<notin> set calls)
     \<and> count_list (snd (analyzeMediaBuffer engine fileBuffer logicalSize name)) Close = 1
     \<and> last (snd (analyzeMediaBuffer engine fileBuffer logicalSize name)) = Close"
proof
  assume c: "on_create engine = Resolves ()"
  let ?diag = "\<lparr>bufferSize = length fileBuffer, diag_filename = name\<rparr>"
  let ?calls = "snd (analyzeBody engine ?diag)"
  have s: "snd (analyzeMediaBuffer engine fileBuffer logicalSize name)
           = [Create, SetOptions] @ ?calls @ [Close]"
    by (simp add: analyzeMediaBuffer_def c Let_def split: prod.splits)
  have n: "Close \<notin> set ?calls" by (rule analyzeBody_no_close)
  have cnt: "count_list ?calls Close = 0" using n by (simp add: count_list_0_iff)
  show "(\<exists>calls. snd (analyzeMediaBuffer engine fileBuffer logicalSize name)
                = [Create, SetOptions] @ calls @ [Close]
              \<and> Close \<notin> set calls)
     \<and> count_list (snd (analyzeMediaBuffer engine fileBuffer logicalSize name)) Close = 1
     \<and> last (snd (analyzeMediaBuffer engine fileBuffer logicalSize name)) = Close"
    using s n cnt by auto
qed

theorem analyzeMediaBuffer_closes_once_witness:
  "snd (analyzeMediaBuffer healthyEngine [0, 0, 1] 3 ''a.mkv'')
     = [Create, SetOptions, AnalyzeData ''object'', Reset, AnalyzeData ''text'', Inform, Close]
   \<and> snd (analyzeMediaBuffer (healthyEngine\<lparr>on_analyze_object := Rejects ''bad data''\<rparr>) [0, 0, 1] 3 ''a.mkv'')
     = [Create, SetOptions, AnalyzeData ''object'', Close]
   \<and> count_list (snd (analyzeMediaBuffer (healthyEngine\<lparr>on_analyze_text := Rejects ''busy''\<rparr>) [0, 0, 1] 3 ''a.mkv'')) Close = 1"
  using analyzeMediaBuffer_closes_once [of "healthyEngine\<lparr>on_analyze_text := Rejects ''busy''\<rparr>" "[0, 0, 1]" 3 "''a.mkv''"]
  by (simp add: analyzeMediaBuffer_def analyzeBody_def healthyEngine_def Let_def)


section \<open>Properties of the text fallback\<close>

lemma fullResponse_link:
  "fullResponse name g styledText pasteResult = headerLines name g @ styledText @ linkPart pasteResult"
  by (simp add: fullResponse_def linkPart_def Let_def)

lemma length_truncationMarker: "length truncationMarker = 27"
  by (simp add: truncationMarker_def)

text \<open>
  Claim C4, as the code has it.  The threshold is 4000 characters, not 4096: a response
  (header, styled text and link line) of at most 4000 characters is sent as it is; a
  longer one is cut to its first \<open>3900 - length link\<close> characters, followed by the
  marker \<open>[Output truncated]\<close> and then the link line, unmodified.  With a link line of
  at most 3900 characters the cut falls inside the report and the message is exactly
  3927 characters long; with one of at most 4069 characters it is at most 4096.
\<close>

theorem textFallback_truncation:
  fixes name :: string and g :: General and styledText :: string and pasteResult :: PasteResult
  defines "link \<equiv> linkPart pasteResult"
  defines "response \<equiv> headerLines name g @ styledText @ link"
  defines "sent \<equiv> textFallback name g styledText pasteResult"
  shows "(length response \<le> 4000 \<longrightarrow> sent = response) \<and>
         (4000 < length response \<longrightarrow>
            sent = take (3900 - length link) response @ truncationMarker @ link \<and>
            (length link \<le> 3900 \<longrightarrow>
               sent = take (3900 - length link) (headerLines name g @ styledText)
                      @ truncationMarker @ link \<and>
               length sent = 3927) \<and>
            (length link \<le> 4069 \<longrightarrow> length sent \<le> 4096))"
proof -
  have r: "fullResponse name g styledText pasteResult = response"
    by (simp add: response_def link_def fullResponse_link)
  have s: "sent = (if length response > 4000
                   then take (3900 - length link) response @ truncationMarker @ link
                   else response)"
    by (simp add: sent_def textFallback_def r Let_def link_def)
  have short: "length response \<le> 4000 \<longrightarrow> sent = response"
    by (simp add: s)
  have long: "sent = take (3900 - length link) response @ truncationMarker @ link"
    if "4000 < length response"
    using that by (simp add: s)
  have cut: "take (3900 - length link) response
             = take (3900 - length link) (headerLines name g @ styledText)"
    if "4000 < length response" "length link \<le> 3900"
  proof -
    have "3900 - length link \<le> length (headerLines name g @ styledText)"
      using that by (simp add: response_def)
    then show ?thesis
      unfolding response_def by (simp only: append_assoc [symmetric] take_append) simp
  qed
  have len: "length sent = 3927"
    if "4000 < length response" "length link \<le> 3900"
    using that by (simp add: long length_truncationMarker)
  have bound: "length sent \<le> 4096"
    if "4000 < length response" "length link \<le> 4069"
    using that by (simp add: long length_truncationMarker)
  show ?thesis using short long cut len bound by auto
qed

theorem textFallback_truncation_witness:
  "textFallback ''a.mkv'' unknownGeneral (replicate 5000 CHR ''a'')
       (paste_ok ''https://paste.rs/abc'')
     = take 3855 (headerLines ''a.mkv'' unknownGeneral @ replicate 5000 CHR ''a'')
       @ truncationMarker @ linkPart (paste_ok ''https://paste.rs/abc'')
   \<and> length (textFallback ''a.mkv'' unknownGeneral (replicate 5000 CHR ''a'')
       (paste_ok ''https://paste.rs/abc'')) = 3927
   \<and> textFallback ''a.mkv'' unknownGeneral ''short'' (paste_ok ''https://paste.rs/abc'')
     = headerLines ''a.mkv'' unknownGeneral @ ''short'' @ linkPart (paste_ok ''https://paste.rs/abc'')"
proof -
  have l: "length (linkPart (paste_ok ''https://paste.rs/abc'')) = 45"
    by (simp add: linkPart_def paste_ok_def truthy_def clipboard_def)
  have h: "length (headerLines ''a.mkv'' unknownGeneral) = 79"
    by (simp add: headerLines_def unknownGeneral_def)
  show ?thesis
    using textFallback_truncation [of "''a.mkv''" unknownGeneral "replicate 5000 CHR ''a''"
        "paste_ok ''https://paste.rs/abc''"]
      textFallback_truncation [of "''a.mkv''" unknownGeneral "''short''"
        "paste_ok ''https://paste.rs/abc''"]
    by (simp add: l h length_truncationMarker)
qed

text \<open>
  A response of 4028 characters with no link fits in 4096 and is cut all the same.
\<close>

theorem textFallback_cuts_fitting_report:
  "length (fullResponse ''a.mkv'' unknownGeneral (replicate 3949 CHR ''a'') (paste_failed ''down'')) = 4028
   \<and> 4028 \<le> (4096 :: nat)
   \<and> length (textFallback ''a.mkv'' unknownGeneral (replicate 3949 CHR ''a'') (paste_failed ''down'')) = 3927
   \<and> textFallback ''a.mkv'' unknownGeneral (replicate 3949 CHR ''a'') (paste_failed ''down'')
       \<noteq> fullResponse ''a.mkv'' unknownGeneral (replicate 3949 CHR ''a'') (paste_failed ''down'')"
proof -
  have f: "length (fullResponse ''a.mkv'' unknownGeneral (replicate 3949 CHR ''a'') (paste_failed ''down'')) = 4028"
    by (simp add: fullResponse_def headerLines_def unknownGeneral_def paste_failed_def Let_def)
  have t: "length (textFallback ''a.mkv'' unknownGeneral (replicate 3949 CHR ''a'') (paste_failed ''down'')) = 3927"
  proof -
    have lp: "linkPart (paste_failed ''down'') = []"
      by (simp add: linkPart_def paste_failed_def)
    show ?thesis
      by (simp add: textFallback_def f Let_def lp truncationMarker_def)
  qed
  from f t have "textFallback ''a.mkv'' unknownGeneral (replicate 3949 CHR ''a'') (paste_failed ''down'')
       \<noteq> fullResponse ''a.mkv'' unknownGeneral (replicate 3949 CHR ''a'') (paste_failed ''down'')"
    by (metis numeral_eq_iff semiring_norm(89) rel_simps)
  with f t show ?thesis by simp
qed


section \<open>Properties of the normalizer\<close>

subsection \<open>The loop over the tracks\<close>

text \<open>
  Each section of the report depends on the tracks of its own type only: the audio and
  subtitle entries are the Audio and Text tracks in their order, numbered from the
  counters; the video section is the last Video track; the general section folds the
  General tracks.
\<close>

lemma processTrack_step:
  "processTrack rt (parsed, audioIndex, subtitleIndex) track =
     (if track_type track = ''General'' then
          (parsed\<lparr>general := generalTrack rt track (general parsed)\<rparr>, audioIndex, subtitleIndex)
        else if track_type track = ''Video'' then
          (parsed\<lparr>video := Some (videoTrack rt track)\<rparr>, audioIndex, subtitleIndex)
        else if track_type track = ''Audio'' then
          (parsed\<lparr>audio := audio parsed @ [audioTrack track audioIndex]\<rparr>,
           audioIndex + 1, subtitleIndex)
        else if track_type track = ''Text'' then
          (parsed\<lparr>subtitles := subtitles parsed @ [textTrack track subtitleIndex]\<rparr>,
           audioIndex, subtitleIndex + 1)
        else (parsed, audioIndex, subtitleIndex))"
  by (simp add: processTrack_def)

lemma fold_audio:
  "audio (fst (foldl (processTrack rt) (p, ai, si) ts)) =
     audio p @ map (\<lambda>(i, t). audioTrack t i)
                 (enumerate ai (filter (\<lambda>t. track_type t = ''Audio'') ts))"
proof (induction ts arbitrary: p ai si)
  case Nil
  show ?case by simp
next
  case (Cons t ts)
  show ?case by (simp add: processTrack_step Cons.IH)
qed

lemma fold_subtitles:
  "subtitles (fst (foldl (processTrack rt) (p, ai, si) ts)) =
     subtitles p @ map (\<lambda>(i, t). textTrack t i)
                 (enumerate si (filter (\<lambda>t. track_type t = ''Text'') ts))"
proof (induction ts arbitrary: p ai si)
  case Nil
  show ?case by simp
next
  case (Cons t ts)
  show ?case by (simp add: processTrack_step Cons.IH)
qed

lemma fold_video:
  "video (fst (foldl (processTrack rt) (p, ai, si) ts)) =
     (case filter (\<lambda>t. track_type t = ''Video'') ts of
        [] \<Rightarrow> video p
      | v # vs \<Rightarrow> Some (videoTrack rt (last (v # vs))))"
proof (induction ts arbitrary: p ai si)
  case Nil
  show ?case by simp
next
  case (Cons t ts)
  show ?case by (simp add: processTrack_step Cons.IH split: list.splits)
qed

lemma fold_general:
  "general (fst (foldl (processTrack rt) (p, ai, si) ts)) =
     foldl (\<lambda>g t. generalTrack rt t g) (general p) (filter (\<lambda>t. track_type t = ''General'') ts)"
proof (induction ts arbitrary: p ai si)
  case Nil
  show ?case by simp
next
  case (Cons t ts)
  show ?case by (simp add: processTrack_step Cons.IH)
qed

lemma fold_filename:
  "filename (fst (foldl (processTrack rt) (p, ai, si) ts)) = filename p"
proof (induction ts arbitrary: p ai si)
  case Nil
  show ?case by simp
next
  case (Cons t ts)
  show ?case by (simp add: processTrack_step Cons.IH)
qed

lemma generalTrack_absent:
  "Format track = None \<Longrightarrow> FileSize track = None \<Longrightarrow> Duration track = None \<Longrightarrow>
   OverallBitRate track = None \<Longrightarrow>
   generalTrack rt track g = g\<lparr>general_container := ''Unknown''\<rparr>"
  by (simp add: generalTrack_def or_else_def truthy_def truthy_nat_def truthy_num_def)


subsection \<open>Defaults\<close>

text \<open>
  Claim C6.  \<open>parseMediaInfo\<close> is a total function of the raw result: none of its
  operations can fail on a raw track, and its one recursion, \<open>gcd_js\<close>, terminates.
  A result with no \<open>media\<close> or with no track yields the report whose general section is
  \<open>Unknown\<close> four times, with no video section and no audio or subtitle entry, and so
  does a lone \<open>General\<close> track with none of its optional fields.  In general the report
  keeps the file name, has one audio entry per \<open>Audio\<close> track, one subtitle entry per
  \<open>Text\<close> track, and a video section exactly when there is a \<open>Video\<close> track.
\<close>

theorem parseMediaInfo_defaults:
  "parseMediaInfo rt \<lparr>media = None\<rparr> name = unknownReport name
   \<and> parseMediaInfo rt \<lparr>media = Some []\<rparr> name = unknownReport name
   \<and> (track_type t = ''General'' \<and> Format t = None \<and> FileSize t = None \<and> Duration t = None
        \<and> OverallBitRate t = None
      \<longrightarrow> parseMediaInfo rt \<lparr>media = Some [t]\<rparr> name = unknownReport name)
   \<and> filename (parseMediaInfo rt \<lparr>media = Some tracks\<rparr> name) = name
   \<and> length (audio (parseMediaInfo rt \<lparr>media = Some tracks\<rparr> name))
       = length (filter (\<lambda>t. track_type t = ''Audio'') tracks)
   \<and> length (subtitles (parseMediaInfo rt \<lparr>media = Some tracks\<rparr> name))
       = length (filter (\<lambda>t. track_type t = ''Text'') tracks)
   \<and> (video (parseMediaInfo rt \<lparr>media = Some tracks\<rparr> name) = None
       \<longleftrightarrow> filter (\<lambda>t. track_type t = ''Video'') tracks = [])"
proof -
  have a: "parseMediaInfo rt \<lparr>media = None\<rparr> name = unknownReport name"
    by (simp add: parseMediaInfo_def initialParsed_def unknownReport_def)
  have b: "parseMediaInfo rt \<lparr>media = Some []\<rparr> name = unknownReport name"
    by (simp add: parseMediaInfo_def initialParsed_def unknownReport_def)
  have c: "parseMediaInfo rt \<lparr>media = Some [t]\<rparr> name = unknownReport name"
    if "track_type t = ''General''" "Format t = None" "FileSize t = None" "Duration t = None"
       "OverallBitRate t = None"
    using that
    by (simp add: parseMediaInfo_def initialParsed_def unknownReport_def processTrack_step
        generalTrack_absent)
  have d: "filename (parseMediaInfo rt \<lparr>media = Some tracks\<rparr> name) = name"
    by (simp add: parseMediaInfo_def fold_filename) (simp add: initialParsed_def)
  have e: "length (audio (parseMediaInfo rt \<lparr>media = Some tracks\<rparr> name))
       = length (filter (\<lambda>t. track_type t = ''Audio'') tracks)"
    by (simp add: parseMediaInfo_def fold_audio) (simp add: initialParsed_def)
  have f: "length (subtitles (parseMediaInfo rt \<lparr>media = Some tracks\<rparr> name))
       = length (filter (\<lambda>t. track_type t = ''Text'') tracks)"
    by (simp add: parseMediaInfo_def fold_subtitles) (simp add: initialParsed_def)
  have g: "video (parseMediaInfo rt \<lparr>media = Some tracks\<rparr> name) = None
       \<longleftrightarrow> filter (\<lambda>t. track_type t = ''Video'') tracks = []"
    by (simp add: parseMediaInfo_def fold_video initialParsed_def split: list.splits)
  show ?thesis using a b c d e f g by blast
qed

theorem parseMediaInfo_defaults_witness:
  "parseMediaInfo sampleRuntime \<lparr>media = Some [emptyTrack ''General'']\<rparr> ''a.mkv''
     = \<lparr>filename = ''a.mkv'',
        general = \<lparr>general_container = ''Unknown'', general_size = ''Unknown'',
                   general_runtime = ''Unknown'', general_bitrate = ''Unknown''\<rparr>,
        video = None, audio = [], subtitles = []\<rparr>"
  using parseMediaInfo_defaults [of sampleRuntime "''a.mkv''" "emptyTrack ''General''"]
  by (simp add: emptyTrack_def unknownReport_def)

text \<open>
  Claim C10.  An \<open>Audio\<close> track with no \<open>Channels\<close> field is reported as \<open>2ch\<close>, and
  one with no \<open>BitRate\<close> field as \<open>Variable\<close>; the audio entries of the report are the
  \<open>Audio\<close> tracks, in order, each with its position as index.
\<close>

theorem audio_defaults:
  "(Channels track = None \<longrightarrow> audio_channels (audioTrack track i) = ''2ch'')
   \<and> (BitRate track = None \<longrightarrow> audio_bitrate (audioTrack track i) = ''Variable'')
   \<and> audio (parseMediaInfo rt \<lparr>media = Some tracks\<rparr> name)
       = map (\<lambda>(i, t). audioTrack t i)
           (enumerate 0 (filter (\<lambda>t. track_type t = ''Audio'') tracks))"
proof -
  have "audio (parseMediaInfo rt \<lparr>media = Some tracks\<rparr> name)
       = map (\<lambda>(i, t). audioTrack t i)
           (enumerate 0 (filter (\<lambda>t. track_type t = ''Audio'') tracks))"
    by (simp add: parseMediaInfo_def fold_audio) (simp add: initialParsed_def)
  then show ?thesis
    by (simp add: audioTrack_def truthy_nat_def Let_def)
qed

theorem audio_defaults_witness:
  "map (\<lambda>a. (audio_channels a, audio_bitrate a))
     (audio (parseMediaInfo sampleRuntime \<lparr>media = Some [emptyTrack ''Audio'']\<rparr> ''a.mkv''))
   = [(''2ch'', ''Variable'')]"
  using audio_defaults [of "emptyTrack ''Audio''" 0 sampleRuntime "[emptyTrack ''Audio'']" "''a.mkv''"]
  by (simp add: emptyTrack_def)

subsection \<open>Codec labels\<close>

text \<open>
  Claim C8, as the code has it.  The relabelling sits under the test \<open>if (formatProfile)\<close>:
  for an \<open>Audio\<close> track with a non-empty profile field, a base format that is
  \<open>MLP FBA\<close> or contains \<open>TrueHD\<close> gives the label \<open>MLP FBA\<close>, with \<open>(Dolby Atmos)\<close>
  appended when the commercial name contains \<open>Atmos\<close>; a base format \<open>DTS\<close> with a
  profile containing \<open>MA\<close> gives \<open>DTS-HD MA\<close>.  With no profile field, or an empty
  one, the label is the base format as it is.
\<close>

theorem audio_codec_labels:
  "(Format t = Some fmt \<and> (fmt = ''MLP FBA'' \<or> includes_str fmt ''TrueHD'')
      \<and> truthy (Format_Profile t)
     \<longrightarrow> audio_codec (audioTrack t i)
         = (if (case Format_Commercial_IfAny t of None \<Rightarrow> False
                | Some c \<Rightarrow> includes_str c ''Atmos'')
            then ''MLP FBA (Dolby Atmos)'' else ''MLP FBA''))
   \<and> (Format t = Some ''DTS'' \<and> Format_Profile t = Some p \<and> includes_str p ''MA''
     \<longrightarrow> audio_codec (audioTrack t i) = ''DTS-HD MA'')
   \<and> (\<not> truthy (Format_Profile t)
     \<longrightarrow> audio_codec (audioTrack t i) = the (or_else (Format t) (Some ''Unknown'')))
   \<and> audio (parseMediaInfo rt \<lparr>media = Some tracks\<rparr> name)
       = map (\<lambda>(i, t). audioTrack t i)
           (enumerate 0 (filter (\<lambda>t. track_type t = ''Audio'') tracks))"
proof -
  have a: "audio_codec (audioTrack t i)
         = (if (case Format_Commercial_IfAny t of None \<Rightarrow> False
                | Some c \<Rightarrow> includes_str c ''Atmos'')
            then ''MLP FBA (Dolby Atmos)'' else ''MLP FBA'')"
    if "Format t = Some fmt" "fmt = ''MLP FBA'' \<or> includes_str fmt ''TrueHD''"
       "truthy (Format_Profile t)"
  proof -
    have ne: "fmt \<noteq> []" using that(2) by auto
    show ?thesis using that ne
      by (auto simp add: audioTrack_def audioCodec_def or_else_def truthy_def Let_def
          split: option.splits)
  qed
  have dts: "\<not> includes_str ''DTS'' ''TrueHD''"
    by (simp add: startsWith_def)
  have b: "audio_codec (audioTrack t i) = ''DTS-HD MA''"
    if "Format t = Some ''DTS''" "Format_Profile t = Some p" "includes_str p ''MA''"
  proof -
    have "p \<noteq> []" using that(3) by auto
    then show ?thesis using that dts
      by (simp add: audioTrack_def audioCodec_def or_else_def truthy_def Let_def)
  qed
  have c: "audio_codec (audioTrack t i) = the (or_else (Format t) (Some ''Unknown''))"
    if "\<not> truthy (Format_Profile t)"
    using that by (simp add: audioTrack_def audioCodec_def Let_def)
  have d: "audio (parseMediaInfo rt \<lparr>media = Some tracks\<rparr> name)
       = map (\<lambda>(i, t). audioTrack t i)
           (enumerate 0 (filter (\<lambda>t. track_type t = ''Audio'') tracks))"
    by (simp add: parseMediaInfo_def fold_audio) (simp add: initialParsed_def)
  show ?thesis using a b c d by blast
qed

theorem audio_codec_labels_witness:
  "map audio_codec
     (audio (parseMediaInfo sampleRuntime \<lparr>media = Some [trueHdAtmos, dtsMaster]\<rparr> ''a.mkv''))
   = [''MLP FBA (Dolby Atmos)'', ''DTS-HD MA'']"
proof -
  show ?thesis
    using audio_codec_labels [of trueHdAtmos "''MLP FBA''" 0 "''x''" sampleRuntime "[trueHdAtmos, dtsMaster]" "''a.mkv''"]
      audio_codec_labels [of dtsMaster "''DTS''" 1 "''MA / Core''" sampleRuntime "[trueHdAtmos, dtsMaster]" "''a.mkv''"]
    by (simp add: trueHdAtmos_def dtsMaster_def emptyTrack_def truthy_def startsWith_def)
qed

text \<open>
  Without a profile field, \<open>MLP FBA\<close> with an Atmos commercial name stays \<open>MLP FBA\<close> and
  \<open>Dolby TrueHD\<close> stays \<open>Dolby TrueHD\<close>.
\<close>

theorem audio_codec_without_profile:
  "map audio_codec
     (audio (parseMediaInfo sampleRuntime
        \<lparr>media = Some [(emptyTrack ''Audio'')\<lparr>Format := Some ''MLP FBA'',
                          Format_Commercial_IfAny := Some ''Dolby TrueHD with Dolby Atmos''\<rparr>,
                       (emptyTrack ''Audio'')\<lparr>Format := Some ''Dolby TrueHD''\<rparr>]\<rparr> ''a.mkv''))
   = [''MLP FBA'', ''Dolby TrueHD'']
   \<and> ''MLP FBA'' \<noteq> ''MLP FBA (Dolby Atmos)'' \<and> ''Dolby TrueHD'' \<noteq> ''MLP FBA''
   \<and> includes_str ''Dolby TrueHD with Dolby Atmos'' ''Atmos''
   \<and> includes_str ''Dolby TrueHD'' ''TrueHD''"
  by (simp add: parseMediaInfo_def initialParsed_def processTrack_step audioTrack_def
      audioCodec_def emptyTrack_def truthy_def or_else_def startsWith_def Let_def)


section \<open>Properties of the source resolver\<close>

lemma firstMatch_Some:
  "k < length ps \<Longrightarrow> (\<forall>j<k. matchAfter isIdChar (ps ! j) s = None) \<Longrightarrow>
   matchAfter isIdChar (ps ! k) s = Some m \<Longrightarrow> firstMatch ps s = Some m"
proof (induction ps arbitrary: k)
  case Nil
  then show ?case by simp
next
  case (Cons p ps)
  show ?case
  proof (cases k)
    case 0
    with Cons.prems show ?thesis by simp
  next
    case (Suc k')
    have p: "matchAfter isIdChar p s = None"
      using Cons.prems(2) Suc by (metis nth_Cons_0 zero_less_Suc)
    have "k' < length ps" using Cons.prems(1) Suc by simp
    moreover have "\<forall>j<k'. matchAfter isIdChar (ps ! j) s = None"
      using Cons.prems(2) Suc by (metis Suc_less_eq nth_Cons_Suc)
    moreover have "matchAfter isIdChar (ps ! k') s = Some m" using Cons.prems(3) Suc by simp
    ultimately have "firstMatch ps s = Some m" by (rule Cons.IH)
    with p show ?thesis by simp
  qed
qed

lemma firstMatch_None:
  "(\<forall>j<length ps. matchAfter isIdChar (ps ! j) s = None) \<Longrightarrow> firstMatch ps s = None"
proof (induction ps)
  case Nil
  show ?case by simp
next
  case (Cons p ps)
  have p: "matchAfter isIdChar p s = None"
    using Cons.prems by (metis length_Cons nth_Cons_0 zero_less_Suc)
  have "\<forall>j<length ps. matchAfter isIdChar (ps ! j) s = None"
    using Cons.prems by (metis Suc_less_eq length_Cons nth_Cons_Suc)
  then have "firstMatch ps s = None" by (rule Cons.IH)
  with p show ?case by simp
qed

lemma isDirectUrl_iff:
  "isDirectUrl parse s \<longleftrightarrow>
     (\<exists>u. parse s = Some u \<and> (protocol u = ''http:'' \<or> protocol u = ''https:'')
          \<and> \<not> excludedHost (hostname u))"
  by (auto simp add: isDirectUrl_def excludedHost_def split: option.splits)

text \<open>
  The classification that the code computes.  The input is a direct URL exactly when it parses as an
  absolute URL, its scheme is \<open>http:\<close> or \<open>https:\<close>, and its host neither contains
  \<open>drive.google.com\<close> or \<open>docs.google.com\<close> nor equals \<open>drive.usercontent.google.com\<close>.
  Otherwise the trimmed input is taken as the file id when it is 25 or more characters
  of \<open>[a-zA-Z0-9_-]\<close>; else the id is the group of the first pattern, in the order of
  the list, that matches; and when none matches the reference is invalid.
\<close>

theorem resolveSource_classification:
  "(isDirectUrl parse s \<longleftrightarrow>
      (\<exists>u. parse s = Some u \<and> (protocol u = ''http:'' \<or> protocol u = ''https:'')
           \<and> \<not> excludedHost (hostname u)))
   \<and> (isDirectUrl parse s \<longrightarrow> resolveSource parse s = Inr (DirectUrl s))
   \<and> (\<not> isDirectUrl parse s \<and> isBareFileId (trim s)
        \<longrightarrow> resolveSource parse s = Inr (DriveReference (trim s)))
   \<and> (\<forall>k m. \<not> isDirectUrl parse s \<and> \<not> isBareFileId (trim s) \<and> k < length patterns
          \<and> (\<forall>j<k. matchAfter isIdChar (patterns ! j) s = None)
          \<and> matchAfter isIdChar (patterns ! k) s = Some m
        \<longrightarrow> resolveSource parse s = Inr (DriveReference m))
   \<and> (\<not> isDirectUrl parse s \<and> \<not> isBareFileId (trim s)
          \<and> (\<forall>j<length patterns. matchAfter isIdChar (patterns ! j) s = None)
        \<longrightarrow> resolveSource parse s = Inl InvalidReference)
   \<and> patterns = [''/file/d/'', ''/open?id='', ''/uc?id='', ''id='', ''/folders/'', ''/d/'']"
proof -
  have a: "isDirectUrl parse s \<longrightarrow> resolveSource parse s = Inr (DirectUrl s)"
    by (simp add: resolveSource_def)
  have b: "\<not> isDirectUrl parse s \<and> isBareFileId (trim s)
        \<longrightarrow> resolveSource parse s = Inr (DriveReference (trim s))"
    by (simp add: resolveSource_def extractFileId_def)
  have c: "resolveSource parse s = Inr (DriveReference m)"
    if "\<not> isDirectUrl parse s" "\<not> isBareFileId (trim s)" "k < length patterns"
       "\<forall>j<k. matchAfter isIdChar (patterns ! j) s = None"
       "matchAfter isIdChar (patterns ! k) s = Some m" for k m
    using that firstMatch_Some [of k patterns s m]
    by (simp add: resolveSource_def extractFileId_def)
  have d: "resolveSource parse s = Inl InvalidReference"
    if "\<not> isDirectUrl parse s" "\<not> isBareFileId (trim s)"
       "\<forall>j<length patterns. matchAfter isIdChar (patterns ! j) s = None"
    using that firstMatch_None [of patterns s]
    by (simp add: resolveSource_def extractFileId_def)
  show ?thesis
    using isDirectUrl_iff [of parse s] a b c d by (simp add: patterns_def) blast
qed

theorem resolveSource_classification_witness:
  "resolveSource sampleParser ''https://example.com/video.mp4''
     = Inr (DirectUrl ''https://example.com/video.mp4'')
   \<and> resolveSource sampleParser ''https://drive.google.com/file/d/1ABC123def456/view''
     = Inr (DriveReference ''1ABC123def456'')
   \<and> resolveSource sampleParser ''1ABC123def456ghi789JKL_mno-0''
     = Inr (DriveReference ''1ABC123def456ghi789JKL_mno-0'')
   \<and> resolveSource sampleParser ''ftp://example.com/video.mp4'' = Inl InvalidReference"
proof -
  have 1: "isDirectUrl sampleParser ''https://example.com/video.mp4''"
    by (simp add: isDirectUrl_def sampleParser_def startsWith_def)
  have 2: "\<not> isDirectUrl sampleParser ''https://drive.google.com/file/d/1ABC123def456/view''"
    by (simp add: isDirectUrl_def sampleParser_def startsWith_def)
  have 3: "\<not> isBareFileId (trim ''https://drive.google.com/file/d/1ABC123def456/view'')"
    by (simp add: isBareFileId_def trim_def isWhiteSpace_def isIdChar_def)
  have 4: "matchAfter isIdChar (patterns ! 0) ''https://drive.google.com/file/d/1ABC123def456/view''
           = Some ''1ABC123def456''"
    by (simp add: patterns_def startsWith_def isIdChar_def)
  have 5: "\<not> isDirectUrl sampleParser ''1ABC123def456ghi789JKL_mno-0''"
    by (simp add: isDirectUrl_def sampleParser_def)
  have 6: "isBareFileId (trim ''1ABC123def456ghi789JKL_mno-0'')"
    by (simp add: isBareFileId_def trim_def isWhiteSpace_def isIdChar_def)
  have 7: "\<not> isDirectUrl sampleParser ''ftp://example.com/video.mp4''"
    by (simp add: isDirectUrl_def sampleParser_def)
  have 8: "\<not> isBareFileId (trim ''ftp://example.com/video.mp4'')"
    by (simp add: isBareFileId_def trim_def isWhiteSpace_def isIdChar_def)
  have 9: "\<forall>j<length patterns. matchAfter isIdChar (patterns ! j) ''ftp://example.com/video.mp4'' = None"
    by (simp add: patterns_def startsWith_def isIdChar_def All_less_Suc2)
  have p0: "0 < length patterns" by (simp add: patterns_def)
  have a: "resolveSource sampleParser ''https://example.com/video.mp4''
     = Inr (DirectUrl ''https://example.com/video.mp4'')"
    using resolveSource_classification [of sampleParser "''https://example.com/video.mp4''"] 1
    by blast
  have b: "resolveSource sampleParser ''https://drive.google.com/file/d/1ABC123def456/view''
     = Inr (DriveReference ''1ABC123def456'')"
    using resolveSource_classification [of sampleParser "''https://drive.google.com/file/d/1ABC123def456/view''"]
      2 3 4 p0
    by (metis not_less_zero)
  have c: "resolveSource sampleParser ''1ABC123def456ghi789JKL_mno-0''
     = Inr (DriveReference ''1ABC123def456ghi789JKL_mno-0'')"
  proof -
    have t: "trim ''1ABC123def456ghi789JKL_mno-0'' = ''1ABC123def456ghi789JKL_mno-0''"
      by (simp add: trim_def isWhiteSpace_def)
    show ?thesis
      using resolveSource_classification [of sampleParser "''1ABC123def456ghi789JKL_mno-0''"] 5 6
      unfolding t by blast
  qed
  have d: "resolveSource sampleParser ''ftp://example.com/video.mp4'' = Inl InvalidReference"
    using resolveSource_classification [of sampleParser "''ftp://example.com/video.mp4''"] 7 8 9
    by blast
  show ?thesis using a b c d by simp
qed


text \<open>
  Claim C5 at a host that is none of the three storage domains but contains one: the host
  test is by substring, so this \<open>https\<close> URL is not taken as a direct URL, and as no
  pattern matches it either the reference is invalid.
\<close>

theorem isDirectUrl_substring_host:
  "sampleParser ''https://drive.google.com.example.org/a.mp4''
     = Some \<lparr>protocol = ''https:'', hostname = ''drive.google.com.example.org'',
             pathname = ''/a.mp4''\<rparr>
   \<and> ''drive.google.com.example.org'' \<notin> set cloudStorageDomains
   \<and> \<not> isDirectUrl sampleParser ''https://drive.google.com.example.org/a.mp4''
   \<and> resolveSource sampleParser ''https://drive.google.com.example.org/a.mp4''
       = Inl InvalidReference"
  by (simp add: sampleParser_def cloudStorageDomains_def isDirectUrl_def startsWith_def
      resolveSource_def extractFileId_def isBareFileId_def trim_def isWhiteSpace_def
      patterns_def isIdChar_def)


section \<open>Properties of the downloader\<close>

text \<open>
  Claim C2 at a server that refuses \<open>HEAD\<close>: no size is learnt, the \<open>GET\<close> carries no
  \<open>Range\<close> header, and the whole body, one byte more than the cap, is the buffer.
\<close>

theorem downloadFromUrl_exceeds_cap:
  "map_option (\<lambda>d. length (buffer d))
     (downloadFromUrl noHeadServer (\<lambda>u hs. ''big.mkv'') ''https://example.com/big.mkv''
        MAX_DOWNLOAD_SIZE)
   = Some (MAX_DOWNLOAD_SIZE + 1)"
  by (simp add: downloadFromUrl_def headSize_def responseSize_def noHeadServer_def headRequest_def
      getRequest_def ok_def header_def truthy_def Let_def)


section \<open>Properties of the double arithmetic\<close>

lemma pow2_powi: "pow2 k = 2 powi k"
proof (cases "0 \<le> k")
  case True
  then show ?thesis by (simp add: pow2_def power_int_def)
next
  case False
  then have "2 powi k = inverse ((2::rat) ^ nat (- k))"
    by (simp only: power_int_def power_inverse if_False)
  also have "\<dots> = 1 / 2 ^ nat (- k)" by (simp only: inverse_eq_divide)
  finally show ?thesis using False by (simp only: pow2_def if_False)
qed

lemma pow2_pos: "0 < pow2 k"
  by (simp add: pow2_powi)

lemma pow2_add: "pow2 (a + b) = pow2 a * pow2 b"
  by (simp add: pow2_powi power_int_add)

lemma pow2_mono: "a \<le> b \<Longrightarrow> pow2 a \<le> pow2 b"
  by (simp add: pow2_powi power_int_increasing)

lemma pow2_less_cancel: "pow2 a < pow2 b \<Longrightarrow> a < b"
  using pow2_mono [of b a] by (cases "a < b") auto

lemma pow2_nat: "pow2 (int n) = 2 ^ n"
  by (simp add: pow2_def)

lemma pow2_diff: "pow2 (a - b) = pow2 a / pow2 b"
  by (simp add: pow2_powi power_int_diff)

lemma ilog2_up_bounds:
  "1 \<le> q \<Longrightarrow> 2 ^ ilog2_up q \<le> q \<and> q < 2 ^ Suc (ilog2_up q)"
proof (induction q rule: ilog2_up.induct)
  case (1 q)
  show ?case
  proof (cases "q < 2")
    case True
    then have "ilog2_up q = 0" by (subst ilog2_up.simps) simp
    with True "1.prems" show ?thesis by simp
  next
    case False
    then have s: "ilog2_up q = Suc (ilog2_up (q / 2))" by (subst ilog2_up.simps) simp
    have "1 \<le> q / 2" using False by simp
    with "1.IH" [OF False]
    have "2 ^ ilog2_up (q / 2) \<le> q / 2" "q / 2 < 2 ^ Suc (ilog2_up (q / 2))" by simp_all
    then show ?thesis by (simp add: s)
  qed
qed

lemma ilog2_down_bounds:
  "0 < q \<Longrightarrow> q < 1 \<Longrightarrow> 1 \<le> q * 2 ^ ilog2_down q \<and> q * 2 ^ ilog2_down q < 2"
proof (induction q rule: ilog2_down.induct)
  case (1 q)
  have c: "\<not> (1 \<le> q \<or> q \<le> 0)" using "1.prems" by simp
  then have s: "ilog2_down q = Suc (ilog2_down (q * 2))" by (subst ilog2_down.simps) simp
  show ?case
  proof (cases "1 \<le> q * 2")
    case True
    then have "ilog2_down (q * 2) = 0" by (subst ilog2_down.simps) simp
    with True "1.prems" show ?thesis by (simp add: s)
  next
    case False
    then have "q * 2 < 1" by simp
    moreover have "0 < q * 2" using "1.prems" by simp
    ultimately have "1 \<le> q * 2 * 2 ^ ilog2_down (q * 2) \<and> q * 2 * 2 ^ ilog2_down (q * 2) < 2"
      using "1.IH" [OF c] by blast
    then show ?thesis by (simp add: s mult.assoc)
  qed
qed

lemma ilog2_bounds:
  assumes "0 < q"
  shows "pow2 (ilog2 q) \<le> q \<and> q < pow2 (ilog2 q + 1)"
proof (cases "1 \<le> q")
  case True
  then have e: "ilog2 q = int (ilog2_up q)" by (simp add: ilog2_def)
  have "int (ilog2_up q) + 1 = int (Suc (ilog2_up q))" by simp
  then have "pow2 (ilog2 q + 1) = 2 ^ Suc (ilog2_up q)" by (simp only: e pow2_nat)
  moreover have "pow2 (ilog2 q) = 2 ^ ilog2_up q" by (simp only: e pow2_nat)
  ultimately show ?thesis using ilog2_up_bounds [OF True] by simp
next
  case False
  then have lt: "q < 1" by simp
  define d where "d = ilog2_down q"
  have e: "ilog2 q = - int d" using False by (simp add: ilog2_def d_def)
  have b: "1 \<le> q * 2 ^ d" "q * 2 ^ d < 2"
    using ilog2_down_bounds [OF assms lt] by (simp_all add: d_def)
  have p: "pow2 (- int d) = 1 / 2 ^ d"
  proof -
    have "pow2 (- int d) = pow2 (0 - int d)" by simp
    also have "\<dots> = pow2 0 / pow2 (int d)" by (rule pow2_diff)
    finally show ?thesis by (simp add: pow2_nat pow2_def)
  qed
  have p1: "pow2 (- int d + 1) = 2 / 2 ^ d"
  proof -
    have "pow2 (- int d + 1) = pow2 (1 - int d)" by (simp add: add.commute)
    also have "\<dots> = pow2 1 / pow2 (int d)" by (rule pow2_diff)
    finally show ?thesis by (simp add: pow2_nat pow2_def)
  qed
  have "1 / 2 ^ d \<le> q" using b(1) by (simp add: field_simps)
  moreover have "q < 2 / 2 ^ d" using b(2) by (simp add: field_simps)
  ultimately show ?thesis by (simp only: e p p1)
qed

lemma round_half_even_error: "\<bar>of_int (round_half_even y) - y\<bar> \<le> 1 / 2"
proof -
  have "of_int \<lfloor>y\<rfloor> \<le> y" "y < of_int \<lfloor>y\<rfloor> + 1" by linarith+
  then show ?thesis
    by (auto simp add: round_half_even_def Let_def abs_le_iff)
qed

lemma round_half_even_int: "round_half_even (of_int i) = i"
  by (simp add: round_half_even_def Let_def)

lemma fl_pos:
  assumes "0 < q"
  shows "fl q = of_int (round_half_even (q / pow2 (ilog2 q - 52))) * pow2 (ilog2 q - 52)"
  using assms by (simp add: fl_def Let_def)

lemma fl_error:
  assumes "0 < q"
  shows "\<bar>fl q - q\<bar> \<le> pow2 (ilog2 q - 53)"
proof -
  define u where "u = pow2 (ilog2 q - 52)"
  have u: "0 < u" by (simp add: u_def pow2_pos)
  have "fl q - q = (of_int (round_half_even (q / u)) - q / u) * u"
    using u by (simp add: fl_pos [OF assms] u_def [symmetric] algebra_simps)
  then have "\<bar>fl q - q\<bar> = \<bar>of_int (round_half_even (q / u)) - q / u\<bar> * u"
    using u by (simp add: abs_mult)
  also have "\<dots> \<le> (1 / 2) * u"
    using round_half_even_error [of "q / u"] u by (intro mult_right_mono) simp_all
  also have "\<dots> = pow2 (ilog2 q - 53)"
  proof -
    have "pow2 (ilog2 q - 52) = pow2 ((ilog2 q - 53) + 1)" by simp
    also have "\<dots> = pow2 (ilog2 q - 53) * pow2 1" by (simp only: pow2_add)
    finally show ?thesis by (simp add: u_def pow2_def)
  qed
  finally show ?thesis .
qed

lemma fl_exact:
  assumes "0 < q" and "q / pow2 (ilog2 q - 52) = of_int i"
  shows "fl q = q"
proof -
  have u: "0 < pow2 (ilog2 q - 52)" by (rule pow2_pos)
  have "fl q = of_int i * pow2 (ilog2 q - 52)"
    by (simp add: fl_pos [OF assms(1)] assms(2) round_half_even_int)
  also have "\<dots> = q" using u assms(2) by (simp add: field_simps)
  finally show ?thesis .
qed

lemma ilog2_less:
  assumes "0 < q" and "q < pow2 k"
  shows "ilog2 q < k"
  using ilog2_bounds [OF assms(1)] assms(2) pow2_less_cancel [of "ilog2 q" k] by linarith

lemma ilog2_ge:
  assumes "0 < q" and "pow2 k \<le> q"
  shows "k \<le> ilog2 q"
proof -
  have "pow2 k < pow2 (ilog2 q + 1)" using ilog2_bounds [OF assms(1)] assms(2) by linarith
  then have "k < ilog2 q + 1" by (rule pow2_less_cancel)
  then show ?thesis by simp
qed


lemma ilog2_unique:
  assumes "0 < q" and "pow2 e \<le> q" and "q < pow2 (e + 1)"
  shows "ilog2 q = e"
proof -
  have "e \<le> ilog2 q" using assms(1,2) by (rule ilog2_ge)
  moreover have "ilog2 q < e + 1" using assms(1,3) by (rule ilog2_less)
  ultimately show ?thesis by simp
qed

lemma fl_eval:
  assumes "0 < q" and "pow2 e \<le> q" and "q < pow2 (e + 1)"
  shows "fl q = of_int (round_half_even (q / pow2 (e - 52))) * pow2 (e - 52)"
  using fl_pos [OF assms(1)] ilog2_unique [OF assms] by simp

lemma natToString_small: "n < 10 \<Longrightarrow> natToString n = [digit_char n]"
  by (subst natToString.simps) simp

lemma natToString_large:
  "10 \<le> n \<Longrightarrow> natToString n = natToString (n div 10) @ [digit_char (n mod 10)]"
  by (subst natToString.simps) simp

lemma natToString_nonempty: "natToString n \<noteq> []"
  by (subst natToString.simps) simp

lemma toFixed_digits_1:
  "toFixed_digits 1 x =
     natToString (nat \<lfloor>x * 10 + 1 / 2\<rfloor> div 10) @ ''.'' @ natToString (nat \<lfloor>x * 10 + 1 / 2\<rfloor> mod 10)"
proof -
  define n where "n = nat \<lfloor>x * 10 + 1 / 2\<rfloor>"
  have last: "natToString (n mod 10) = [digit_char (n mod 10)]"
    by (rule natToString_small) simp
  show ?thesis
  proof (cases "n < 10")
    case True
    then have "natToString n = [digit_char n]" by (rule natToString_small)
    moreover have "natToString (n div 10) = ''0''"
      using True by (simp add: natToString_small digit_char_def)
    ultimately show ?thesis
      using True by (simp add: toFixed_digits_def n_def [symmetric] Let_def last)
  next
    case False
    then have m: "natToString n = natToString (n div 10) @ [digit_char (n mod 10)]"
      by (intro natToString_large) simp
    have len: "1 \<le> length (natToString (n div 10))"
      using natToString_nonempty [of "n div 10"] by (cases "natToString (n div 10)") auto
    show ?thesis
      using len natToString_nonempty [of "n div 10"]
      by (simp add: toFixed_digits_def n_def [symmetric] Let_def last m)
  qed
qed

lemma kb_round:
  assumes "1000 \<le> b" and "b < 1000000"
  shows "Math_round (fl (of_nat b / 1000)) = int ((b + 500) div 1000)"
proof -
  define q :: rat where "q = of_nat b / 1000"
  define k where "k = (b + 500) div 1000"
  define r where "r = (b + 500) mod 1000"
  have br: "b + 500 = 1000 * k + r" and r: "r < 1000"
    by (simp_all add: k_def r_def)
  have q1: "1 \<le> q" using assms(1) by (simp add: q_def)
  have qpos: "0 < q" using q1 by linarith
  have "q < 1000" using assms(2) by (simp add: q_def)
  then have "q < pow2 10" by (simp add: pow2_def)
  then have e_hi: "ilog2 q < 10" by (rule ilog2_less [OF qpos])
  have qk: "q + 1 / 2 = of_nat k + of_nat r / 1000"
  proof -
    have "(of_nat (b + 500) :: rat) = of_nat (1000 * k + r)" by (simp only: br)
    then show ?thesis by (simp add: q_def field_simps)
  qed
  have "\<lfloor>fl q + 1 / 2\<rfloor> = int k"
  proof (cases "r = 0")
    case True
    then have qv: "q = (2 * of_nat k - 1) / 2" using qk by (simp add: field_simps)
    define j where "j = nat (51 - ilog2 q)"
    have j: "51 - ilog2 q = int j" using e_hi by (simp add: j_def)
    have "q / pow2 (ilog2 q - 52) = q * pow2 (52 - ilog2 q)"
    proof -
      have "pow2 (52 - ilog2 q) * pow2 (ilog2 q - 52) = pow2 0"
        by (simp only: pow2_add [symmetric]) simp
      then have "pow2 (52 - ilog2 q) * pow2 (ilog2 q - 52) = 1" by (simp add: pow2_def)
      then show ?thesis using pow2_pos [of "ilog2 q - 52"] by (simp add: field_simps)
    qed
    also have "pow2 (52 - ilog2 q) = pow2 (int j + 1)"
    proof -
      have "52 - ilog2 q = int j + 1" using j by linarith
      then show ?thesis by (simp only:)
    qed
    also have "\<dots> = 2 ^ j * 2"
    proof -
      have "pow2 (int j + 1) = pow2 (int j) * pow2 1" by (rule pow2_add)
      also have "pow2 1 = 2" by (simp add: pow2_def)
      finally show ?thesis by (simp add: pow2_nat)
    qed
    also have "q * (2 ^ j * 2) = of_int ((2 * int k - 1) * 2 ^ j)"
      by (simp add: qv)
    finally have "fl q = q" by (rule fl_exact [OF qpos])
    then have "fl q + 1 / 2 = of_int (int k)" using qk True by simp
    then show ?thesis by (simp only: floor_of_int)
  next
    case False
    then have r1: "1 \<le> r" by simp
    have "ilog2 q - 53 \<le> - 44" using e_hi by simp
    then have "pow2 (ilog2 q - 53) \<le> pow2 (- 44)" by (rule pow2_mono)
    also have "\<dots> < 1 / 1000" by (simp add: pow2_def)
    finally have err: "\<bar>fl q - q\<bar> < 1 / 1000" using fl_error [OF qpos] by linarith
    have e1: "q - fl q < 1 / 1000" and e2: "fl q - q < 1 / 1000"
      using err by linarith+
    have rlo: "(1::rat) / 1000 \<le> of_nat r / 1000" using r1 by simp
    have "(of_nat r :: rat) \<le> of_nat 999" using r by (simp only: of_nat_le_iff)
    then have rhi: "(of_nat r :: rat) / 1000 \<le> 999 / 1000" by simp
    have lo': "(of_nat k :: rat) \<le> fl q + 1 / 2" using e1 rlo qk by linarith
    have hi': "fl q + 1 / 2 < (of_nat k :: rat) + 1" using e2 rhi qk by linarith
    have lo: "of_int (int k) \<le> fl q + 1 / 2" using lo' by simp
    have hi: "fl q + 1 / 2 < of_int (int k + 1)" using hi' by simp
    from lo hi show ?thesis by (simp add: floor_eq_iff)
  qed
  then show ?thesis by (simp add: Math_round_def q_def k_def)
qed

section \<open>Properties of the bitrate format\<close>

lemma tie_arith:
  fixes b d m k r :: nat
  assumes "b = 100000 * d + m" "m < 100000" "b + 50000 = 100000 * k + r" "r < 100000"
  shows "(r = 0 \<longleftrightarrow> m = 50000) \<and> (m = 50000 \<longrightarrow> k = d + 1)"
proof -
  have e: "100000 * d + (m + 50000) = 100000 * k + r" using assms(1,3) by simp
  have kd: "d \<le> k"
  proof (rule ccontr)
    assume "\<not> d \<le> k"
    then have "k + 1 \<le> d" by simp
    then have "100000 * (k + 1) \<le> 100000 * d" by (rule mult_le_mono2)
    then show False using e assms(4) by simp
  qed
  have k1: "k \<le> d + 1"
  proof (rule ccontr)
    assume "\<not> k \<le> d + 1"
    then have "d + 2 \<le> k" by simp
    then have "100000 * (d + 2) \<le> 100000 * k" by (rule mult_le_mono2)
    then show False using e assms(2) by simp
  qed
  from kd k1 have "k = d \<or> k = d + 1" by linarith
  then show ?thesis
  proof
    assume "k = d"
    then have "m + 50000 = r" using e by simp
    then show ?thesis using assms(4) \<open>k = d\<close> by auto
  next
    assume "k = d + 1"
    then have "m + 50000 = 100000 + r" using e by simp
    then show ?thesis using \<open>k = d + 1\<close> by auto
  qed
qed

lemma mb_round:
  assumes "1000000 \<le> b" and "b < 2 ^ 53"
  shows "(b mod 100000 \<noteq> 50000 \<longrightarrow>
            nat \<lfloor>fl (of_nat b / 1000000) * 10 + 1 / 2\<rfloor> = (b + 50000) div 100000)
       \<and> (b mod 100000 = 50000 \<longrightarrow>
            nat \<lfloor>fl (of_nat b / 1000000) * 10 + 1 / 2\<rfloor> = b div 100000
          \<or> nat \<lfloor>fl (of_nat b / 1000000) * 10 + 1 / 2\<rfloor> = b div 100000 + 1)"
proof -
  define q :: rat where "q = of_nat b / 1000000"
  define k where "k = (b + 50000) div 100000"
  define r where "r = (b + 50000) mod 100000"
  define x where "x = fl q * 10 + 1 / 2"
  have br: "b + 50000 = 100000 * k + r" and r: "r < 100000"
    by (simp_all add: k_def r_def)
  have q1: "1 \<le> q" using assms(1) by (simp add: q_def)
  have qpos: "0 < q" using q1 by linarith
  have "(of_nat b :: rat) < of_nat (2 ^ 53)" using assms(2) by (simp only: of_nat_less_iff)
  then have "q < 2 ^ 53 / 1000000" by (simp add: q_def)
  also have "\<dots> < pow2 34" by (simp add: pow2_def)
  finally have e_hi: "ilog2 q < 34" by (rule ilog2_less [OF qpos])
  have qk: "q * 10 + 1 / 2 = of_nat k + of_nat r / 100000"
  proof -
    have "(of_nat (b + 50000) :: rat) = of_nat (100000 * k + r)" by (simp only: br)
    then show ?thesis by (simp add: q_def field_simps)
  qed
  have "ilog2 q - 53 \<le> - 20" using e_hi by simp
  then have "pow2 (ilog2 q - 53) \<le> pow2 (- 20)" by (rule pow2_mono)
  also have "\<dots> < 1 / 1000000" by (simp add: pow2_def)
  finally have err: "\<bar>fl q - q\<bar> < 1 / 1000000" using fl_error [OF qpos] by linarith
  have e1: "q - fl q < 1 / 1000000" and e2: "fl q - q < 1 / 1000000"
    using err by linarith+
  have "(of_nat r :: rat) \<le> of_nat 99999" using r by (simp only: of_nat_le_iff)
  then have rhi: "(of_nat r :: rat) / 100000 \<le> 99999 / 100000" by simp
  have rlo0: "(0::rat) \<le> of_nat r / 100000" by simp
  have k10: "10 \<le> k" using assms(1) by (simp add: k_def)
  have hi: "x < of_nat k + 1" using e2 rhi qk unfolding x_def by linarith
  have lo_weak: "of_nat k - 1 < x" using e1 rlo0 qk unfolding x_def by linarith
  have nontie: "nat \<lfloor>x\<rfloor> = k" if "r \<noteq> 0"
  proof -
    have "1 \<le> r" using that by simp
    then have "(1::rat) / 100000 \<le> of_nat r / 100000" by simp
    then have "of_nat k \<le> x" using e1 qk unfolding x_def by linarith
    then have "of_int (int k) \<le> x" "x < of_int (int k + 1)" using hi by simp_all
    then have "\<lfloor>x\<rfloor> = int k" by (simp add: floor_eq_iff)
    then show ?thesis by simp
  qed
  have tie: "nat \<lfloor>x\<rfloor> = k - 1 \<or> nat \<lfloor>x\<rfloor> = k"
  proof (cases "of_nat k \<le> x")
    case True
    then have "of_int (int k) \<le> x" "x < of_int (int k + 1)" using hi by simp_all
    then have "\<lfloor>x\<rfloor> = int k" by (simp add: floor_eq_iff)
    then show ?thesis by simp
  next
    case False
    then have "of_int (int k - 1) \<le> x" "x < of_int (int k - 1 + 1)" using lo_weak by simp_all
    then have "\<lfloor>x\<rfloor> = int k - 1" by (simp only: floor_eq_iff) simp
    moreover have "int k - 1 = int (k - 1)" using k10 by (simp add: of_nat_diff)
    ultimately have "\<lfloor>x\<rfloor> = int (k - 1)" by (simp only:)
    then have "nat \<lfloor>x\<rfloor> = k - 1" by (simp only: nat_int)
    then show ?thesis by simp
  qed
  have ta: "(r = 0 \<longleftrightarrow> b mod 100000 = 50000) \<and> (b mod 100000 = 50000 \<longrightarrow> k = b div 100000 + 1)"
  proof -
    have "b = 100000 * (b div 100000) + b mod 100000" by simp
    moreover have "b mod 100000 < 100000" by simp
    ultimately show ?thesis using br r by (rule tie_arith)
  qed
  have c1: "nat \<lfloor>x\<rfloor> = k" if "b mod 100000 \<noteq> 50000"
    using that ta nontie by blast
  have c2: "nat \<lfloor>x\<rfloor> = b div 100000 \<or> nat \<lfloor>x\<rfloor> = b div 100000 + 1"
    if t: "b mod 100000 = 50000"
  proof -
    have "k = b div 100000 + 1" using t ta by blast
    then show ?thesis using tie by auto
  qed
  have xq: "x = fl (of_nat b / 1000000) * 10 + 1 / 2" by (simp only: x_def q_def)
  show ?thesis
    using c1 c2 unfolding xq k_def by blast
qed


lemma fb_pos:
  assumes "1000000 \<le> (b::nat)"
  shows "\<not> fl (of_nat b / 1000000) < 0"
proof -
  have q: "(0::rat) < of_nat b / 1000000" using assms by simp
  have "\<bar>fl (of_nat b / 1000000) - of_nat b / 1000000\<bar> \<le> pow2 (ilog2 (of_nat b / 1000000) - 53)"
    by (rule fl_error [OF q])
  moreover have "pow2 (ilog2 (of_nat b / 1000000) - 53) \<le> pow2 (ilog2 (of_nat b / 1000000))"
    by (rule pow2_mono) simp
  moreover have "pow2 (ilog2 (of_nat b / 1000000)) \<le> of_nat b / 1000000"
    using ilog2_bounds [OF q] by simp
  ultimately show ?thesis by linarith
qed


lemma fb_big:
  assumes "1000000 \<le> b" "b < 2 ^ 53"
  shows "\<exists>n. formatBitrate b = natToString (n div 10) @ ''.'' @ natToString (n mod 10) @ '' Mb/s''
            \<and> (b mod 100000 \<noteq> 50000 \<longrightarrow> n = (b + 50000) div 100000)
            \<and> (b mod 100000 = 50000 \<longrightarrow> n = b div 100000 \<or> n = b div 100000 + 1)"
proof -
  have f: "formatBitrate b = toFixed_digits 1 (fl (of_nat b / 1000000)) @ '' Mb/s''"
    using assms(1) fb_pos [OF assms(1)] by (simp add: formatBitrate_def toFixed_def)
  have g: "formatBitrate b =
      natToString (nat \<lfloor>fl (of_nat b / 1000000) * 10 + 1 / 2\<rfloor> div 10) @ ''.'' @
      natToString (nat \<lfloor>fl (of_nat b / 1000000) * 10 + 1 / 2\<rfloor> mod 10) @ '' Mb/s''"
    unfolding f toFixed_digits_1 by simp
  from g mb_round [OF assms] show ?thesis by blast
qed

lemma fb_mid:
  assumes "1000 \<le> b" "b < 1000000"
  shows "formatBitrate b = natToString ((b + 500) div 1000) @ '' kb/s''"
  using assms kb_round [OF assms] by (simp add: formatBitrate_def intToString_def)


lemma fb_ex1: "formatBitrate 500 = ''500 b/s''"
  by (simp add: formatBitrate_def natToString.simps digit_char_def)

lemma fb_ex2: "formatBitrate 1500 = ''2 kb/s''"
  using fb_mid [of 1500] by (simp add: natToString.simps digit_char_def)

lemma fl_5_2: "fl (5 / 2) = 5 / 2"
  using fl_eval [of "5 / 2" 1] by (simp add: pow2_def round_half_even_def Let_def)

lemma fb_ex3: "formatBitrate 2500000 = ''2.5 Mb/s''"
proof -
  have n: "natToString 2 = ''2''" "natToString 5 = ''5''"
    by (simp_all add: natToString.simps digit_char_def)
  have f: "\<lfloor>(5 / 2 :: rat) * 10 + 1 / 2\<rfloor> = 25"
    by (simp add: floor_eq_iff)
  have "toFixed 1 (5 / 2) = ''2.5''"
    unfolding toFixed_def toFixed_digits_1 f by (simp add: n)
  then show ?thesis
    by (simp add: formatBitrate_def fl_5_2)
qed

text \<open>
  Claim C7.  \<open>formatBitrate\<close> on a bitrate \<open>b\<close>: below \<open>1000\<close> the decimal numeral of \<open>b\<close>
  followed by \<open>b/s\<close>; from \<open>1000\<close> and below \<open>1000000\<close> the quotient by \<open>1000\<close> rounded to
  the nearest integer, a half going up, followed by \<open>kb/s\<close>; from \<open>1000000\<close>, for the
  integers that a double holds exactly, the quotient by \<open>1000000\<close> with one decimal,
  \<open>n div 10\<close> before the point and \<open>n mod 10\<close> after it, where \<open>n\<close> is the number of
  tenths nearest to the quotient (either neighbour on a tie, which the binary quotient
  decides), followed by \<open>Mb/s\<close>.  So \<open>500\<close> gives \<open>500 b/s\<close>, \<open>1500\<close> gives \<open>2 kb/s\<close> and
  \<open>2500000\<close> gives \<open>2.5 Mb/s\<close>.
\<close>

theorem formatBitrate_thresholds:
  "(b < 1000 \<longrightarrow> formatBitrate b = natToString b @ '' b/s'')
   \<and> (1000 \<le> b \<and> b < 1000000 \<longrightarrow>
        formatBitrate b = natToString ((b + 500) div 1000) @ '' kb/s'')
   \<and> (1000000 \<le> b \<and> b < 2 ^ 53 \<longrightarrow>
        (\<exists>n. formatBitrate b = natToString (n div 10) @ ''.'' @ natToString (n mod 10) @ '' Mb/s''
            \<and> (b mod 100000 \<noteq> 50000 \<longrightarrow> n = (b + 50000) div 100000)
            \<and> (b mod 100000 = 50000 \<longrightarrow> n = b div 100000 \<or> n = b div 100000 + 1)))
   \<and> formatBitrate 500 = ''500 b/s''
   \<and> formatBitrate 1500 = ''2 kb/s''
   \<and> formatBitrate 2500000 = ''2.5 Mb/s''"
proof (intro conjI impI)
  assume "b < 1000"
  then show "formatBitrate b = natToString b @ '' b/s''" by (simp add: formatBitrate_def)
next
  assume "1000 \<le> b \<and> b < 1000000"
  then show "formatBitrate b = natToString ((b + 500) div 1000) @ '' kb/s''"
    by (simp add: fb_mid)
next
  assume "1000000 \<le> b \<and> b < 2 ^ 53"
  then show "\<exists>n. formatBitrate b = natToString (n div 10) @ ''.'' @ natToString (n mod 10) @ '' Mb/s''
            \<and> (b mod 100000 \<noteq> 50000 \<longrightarrow> n = (b + 50000) div 100000)
            \<and> (b mod 100000 = 50000 \<longrightarrow> n = b div 100000 \<or> n = b div 100000 + 1)"
    using fb_big [of b] by blast
qed (rule fb_ex1 fb_ex2 fb_ex3)+

theorem formatBitrate_thresholds_witness:
  "formatBitrate 999 = ''999 b/s'' \<and> formatBitrate 128000 = ''128 kb/s''
   \<and> formatBitrate 5234567 = ''5.2 Mb/s''"
proof -
  have n: "natToString 999 = ''999''" "natToString 128 = ''128''" "natToString 5 = ''5''"
    "natToString 2 = ''2''"
    by (simp_all add: natToString.simps digit_char_def)
  have a: "formatBitrate 999 = ''999 b/s''"
    using formatBitrate_thresholds [of 999] by (simp add: n)
  have b: "formatBitrate 128000 = ''128 kb/s''"
    using formatBitrate_thresholds [of 128000] by (simp add: n)
  have "1000000 \<le> (5234567::nat) \<and> (5234567::nat) < 2 ^ 53" by simp
  with formatBitrate_thresholds [of 5234567] obtain k where
    k: "formatBitrate 5234567 = natToString (k div 10) @ ''.'' @ natToString (k mod 10) @ '' Mb/s''"
       "(5234567::nat) mod 100000 \<noteq> 50000 \<longrightarrow> k = (5234567 + 50000) div 100000"
    by blast
  from k(2) have "k = 52" by simp
  with k(1) have c: "formatBitrate 5234567 = ''5.2 Mb/s''" by (simp add: n)
  from a b c show ?thesis by simp
qed

section \<open>Properties of the aspect ratio\<close>

lemma fl_neg: "fl (- q) = - fl q"
  by (simp add: fl_def Let_def)

lemma fl_error_rel_pos:
  assumes "0 < q"
  shows "\<bar>fl q - q\<bar> \<le> q / 2 ^ 53"
proof -
  have "pow2 (ilog2 q - 53) = pow2 (ilog2 q) / pow2 53" by (rule pow2_diff)
  also have "\<dots> = pow2 (ilog2 q) / 2 ^ 53" by (simp add: pow2_def)
  also have "\<dots> \<le> q / 2 ^ 53"
    using ilog2_bounds [OF assms] by (simp add: divide_right_mono)
  finally show ?thesis using fl_error [OF assms] by linarith
qed

lemma fl_error_rel: "\<bar>fl q - q\<bar> \<le> \<bar>q\<bar> / 2 ^ 53"
proof -
  consider "q = 0" | "0 < q" | "q < 0" by linarith
  then show ?thesis
  proof cases
    case 1
    then show ?thesis by (simp add: fl_def)
  next
    case 2
    then show ?thesis using fl_error_rel_pos [OF 2] by simp
  next
    case 3
    then have p: "0 < - q" by simp
    have "\<bar>fl (- q) - (- q)\<bar> \<le> (- q) / 2 ^ 53" by (rule fl_error_rel_pos [OF p])
    then have "\<bar>- (fl q - q)\<bar> \<le> (- q) / 2 ^ 53" by (simp add: fl_neg)
    then have "\<bar>fl q - q\<bar> \<le> (- q) / 2 ^ 53" by (simp only: abs_minus_cancel)
    then show ?thesis using 3 by simp
  qed
qed

text \<open>
  Away from the edge of a bucket the tolerance test in doubles is the test in exact
  arithmetic.
\<close>

lemma near_ratio_exact:
  assumes r: "0 < of_nat w / (of_nat h :: rat)" and c: "0 < c" "c \<le> 4"
  shows "(\<bar>of_nat w / of_nat h - c\<bar> \<le> 1 / 10 - 1 / 1000000000000 \<longrightarrow> near_ratio w h c)
       \<and> (1 / 10 + 1 / 1000000000000 \<le> \<bar>of_nat w / of_nat h - c\<bar> \<longrightarrow> \<not> near_ratio w h c)"
proof -
  define x :: rat where "x = of_nat w / of_nat h"
  define a where "a = fl x"
  define b where "b = fl c"
  define d where "d = fl (a - b)"
  define t where "t = fl (1 / 10)"
  define eps :: rat where "eps = 1 / 2 ^ 53"
  have nr: "near_ratio w h c \<longleftrightarrow> \<bar>d\<bar> < t"
    by (simp add: near_ratio_def d_def a_def b_def t_def x_def)
  have xpos: "0 < x" using r by (simp add: x_def)
  have ea: "\<bar>a - x\<bar> \<le> x * eps"
    using fl_error_rel [of x] xpos by (simp add: a_def eps_def)
  have eb: "\<bar>b - c\<bar> \<le> c * eps"
    using fl_error_rel [of c] c(1) by (simp add: b_def eps_def)
  have ed: "\<bar>d - (a - b)\<bar> \<le> \<bar>a - b\<bar> * eps"
    using fl_error_rel [of "a - b"] by (simp add: d_def eps_def)
  have et: "\<bar>t - 1 / 10\<bar> \<le> (1 / 10) * eps"
    using fl_error_rel [of "1 / 10"] by (simp add: t_def eps_def)
  have eps: "0 < eps" "eps \<le> 1 / 1000000000000000" by (simp_all add: eps_def)
  have ceps: "c * eps \<le> 4 * eps" using c(2) eps(1) by simp
  have near: "\<bar>d\<bar> < t" if h: "\<bar>x - c\<bar> \<le> 1 / 10 - 1 / 1000000000000"
  proof -
    have x5: "x \<le> 5" using h c(2) by linarith
    then have xeps: "x * eps \<le> 5 * eps" using eps(1) by simp
    have s: "\<bar>a - b\<bar> \<le> 1 / 10 - 1 / 1000000000000 + 9 * eps" using ea eb h xeps ceps by linarith
    then have "\<bar>a - b\<bar> \<le> 1" using eps(2) by linarith
    then have "\<bar>a - b\<bar> * eps \<le> 1 * eps" using eps(1) by (intro mult_right_mono) simp_all
    then have "\<bar>d\<bar> \<le> 1 / 10 - 1 / 1000000000000 + 10 * eps" using ed s by linarith
    moreover have "1 / 10 - eps \<le> t" using et eps(1) by linarith
    ultimately show ?thesis using eps(2) by linarith
  qed
  have far: "t \<le> \<bar>d\<bar>" if h: "1 / 10 + 1 / 1000000000000 \<le> \<bar>x - c\<bar>"
  proof -
    have eps1: "eps \<le> 1 / 1000" using eps(2) by linarith
    have xe: "x * eps \<le> x / 1000" using eps1 xpos by (simp add: mult_left_mono)
    have ce: "c * eps \<le> 4 / 1000" using ceps eps1 by linarith
    have ab: "\<bar>x - c\<bar> - x * eps - c * eps \<le> \<bar>a - b\<bar>" using ea eb by linarith
    have big: "1 / 10 + 1 / 1000000000000 - 9 * eps \<le> \<bar>a - b\<bar> \<or> 1 / 2 \<le> \<bar>a - b\<bar>"
    proof (cases "x \<le> 5")
      case True
      then have "x * eps \<le> 5 * eps" using eps(1) by simp
      then show ?thesis using ab h ceps by linarith
    next
      case False
      then have "x - c \<ge> 1" using c(2) by linarith
      then have "\<bar>x - c\<bar> = x - c" by simp
      then show ?thesis using ab xe ce c(2) False by linarith
    qed
    have ab1: "1 / 10 + 1 / 1000000000000 - 9 * eps \<le> \<bar>a - b\<bar>"
      using big eps(1) by linarith
    have dd: "\<bar>a - b\<bar> - \<bar>a - b\<bar> * eps \<le> \<bar>d\<bar>" using ed by linarith
    have tt: "t \<le> 1 / 10 + eps" using et eps(1) by linarith
    show ?thesis
    proof (cases "\<bar>a - b\<bar> \<le> 1")
      case True
      then have "\<bar>a - b\<bar> * eps \<le> 1 * eps" using eps(1) by (intro mult_right_mono) simp_all
      then show ?thesis using dd tt ab1 eps(2) by linarith
    next
      case False
      then have "1 * (1 - eps) \<le> \<bar>a - b\<bar> * (1 - eps)"
        using eps(2) by (intro mult_right_mono) simp_all
      then have "1 - eps \<le> \<bar>a - b\<bar> - \<bar>a - b\<bar> * eps" by (simp add: algebra_simps)
      then show ?thesis using dd tt eps(2) by linarith
    qed
  qed
  show ?thesis using near far unfolding nr x_def by auto
qed

lemma gcd_js_gcd: "gcd_js a b = gcd a b"
proof (induction a b rule: gcd_js.induct)
  case (1 a b)
  show ?case
  proof (cases "b = 0")
    case True
    then show ?thesis by (subst gcd_js.simps) simp
  next
    case False
    then have "gcd_js a b = gcd_js b (a mod b)" by (subst gcd_js.simps) simp
    also have "\<dots> = gcd b (a mod b)" using 1 False by simp
    also have "\<dots> = gcd a b" by (metis gcd_red_nat)
    finally show ?thesis .
  qed
qed

lemma gcd_js_examples:
  "gcd_js 1920 1080 = 120" "gcd_js 720 480 = 240" "gcd_js 1920 800 = 160"
  "gcd_js 1280 544 = 32" "gcd_js 1560 800 = 40" "gcd_js 1440 640 = 160"
  "gcd_js 1400 800 = 200"
  by (simp_all add: gcd_js.simps)

lemma digits_small:
  "natToString 2 = ''2''" "natToString 3 = ''3''" "natToString 4 = ''4''" "natToString 9 = ''9''"
  by (simp_all add: natToString_small digit_char_def)

lemma aspect_ex1: "aspectRatio 1920 1080 = ''16:9''"
  by (simp add: aspectRatio_def gcd_js_examples Let_def)

lemma aspect_ex2: "aspectRatio 720 480 = ''3:2''"
proof -
  have r: "0 < of_nat 720 / (of_nat 480 :: rat)" by simp
  have "\<not> near_ratio 720 480 (235 / 100)" using near_ratio_exact [OF r, of "235 / 100"] by simp
  moreover have "\<not> near_ratio 720 480 (239 / 100)" using near_ratio_exact [OF r, of "239 / 100"] by simp
  moreover have "\<not> near_ratio 720 480 (185 / 100)" using near_ratio_exact [OF r, of "185 / 100"] by simp
  moreover have "\<not> near_ratio 720 480 (178 / 100)" using near_ratio_exact [OF r, of "178 / 100"] by simp
  ultimately show ?thesis by (simp add: aspectRatio_def gcd_js_examples Let_def digits_small)
qed

lemma aspect_ex3: "aspectRatio 1920 800 = ''2.35:1''"
proof -
  have r: "0 < of_nat 1920 / (of_nat 800 :: rat)" by simp
  have "near_ratio 1920 800 (235 / 100)" using near_ratio_exact [OF r, of "235 / 100"] by simp
  then show ?thesis by (simp add: aspectRatio_def gcd_js_examples Let_def)
qed

lemma round_half_even_near:
  assumes "of_int n - 1 / 2 < y" "y < of_int n + 1 / 2"
  shows "round_half_even y = n"
proof -
  have lo: "n - 1 \<le> \<lfloor>y\<rfloor>" using assms(1) by (simp add: le_floor_iff) 
  have hi: "\<lfloor>y\<rfloor> \<le> n" using assms(2) by (simp add: floor_le_iff)
  then consider "\<lfloor>y\<rfloor> = n" | "\<lfloor>y\<rfloor> = n - 1" using lo by linarith
  then show ?thesis
  proof cases
    case 1
    then show ?thesis using assms(2) by (simp add: round_half_even_def Let_def)
  next
    case 2
    then show ?thesis using assms(1) by (simp add: round_half_even_def Let_def)
  qed
qed

lemma fl_near:
  assumes "0 < q" "pow2 e \<le> q" "q < pow2 (e + 1)"
    and "of_int n - 1 / 2 < q / pow2 (e - 52)" "q / pow2 (e - 52) < of_int n + 1 / 2"
  shows "fl q = of_int n * pow2 (e - 52)"
  using fl_eval [OF assms(1-3)] round_half_even_near [OF assms(4,5)] by simp

lemma fl_tenth: "fl (1 / 10) = 3602879701896397 / 36028797018963968"
  using fl_near [of "1 / 10" "-4" 7205759403792794] by (simp add: pow2_def)


text \<open>
  The eight bucket edges in doubles: only \<open>1.95\<close> against \<open>1.85\<close> and \<open>1.88\<close> against
  \<open>1.78\<close> come out below \<open>0.1\<close>.
\<close>

lemma fl_9_4: "fl (9 / 4) = 9 / 4"
  using fl_near [of "9 / 4" 1 5066549580791808] by (simp add: pow2_def)

lemma fl_47_20: "fl (47 / 20) = 5291729562160333 / 2251799813685248"
  using fl_near [of "47 / 20" 1 5291729562160333] by (simp add: pow2_def)

lemma fl_225179981368525_2251799813685248: "fl (225179981368525 / 2251799813685248) = 225179981368525 / 2251799813685248"
  using fl_near [of "225179981368525 / 2251799813685248" "-4" 7205759403792800] by (simp add: pow2_def)

lemma near_edge_9_4:
  assumes "of_nat w / of_nat h = (9 / 4 :: rat)"
  shows "\<not> near_ratio w h (47 / 20)"
proof -
  have "fl (9 / 4) - fl (47 / 20) = - (225179981368525 / 2251799813685248)"
    unfolding fl_9_4 fl_47_20 by simp
  then have "\<bar>fl (fl (9 / 4) - fl (47 / 20))\<bar> = 225179981368525 / 2251799813685248"
    by (simp only: fl_neg fl_225179981368525_2251799813685248 abs_minus_cancel)
  then show ?thesis
    unfolding near_ratio_def assms fl_tenth by simp
qed

lemma fl_49_20: "fl (49 / 20) = 2758454771764429 / 1125899906842624"
  using fl_near [of "49 / 20" 1 5516909543528858] by (simp add: pow2_def)

lemma near_edge_49_20:
  assumes "of_nat w / of_nat h = (49 / 20 :: rat)"
  shows "\<not> near_ratio w h (47 / 20)"
proof -
  have "fl (49 / 20) - fl (47 / 20) = (225179981368525 / 2251799813685248)"
    unfolding fl_49_20 fl_47_20 by simp
  then have "\<bar>fl (fl (49 / 20) - fl (47 / 20))\<bar> = 225179981368525 / 2251799813685248"
    by (simp only: fl_neg fl_225179981368525_2251799813685248 abs_minus_cancel)
  then show ?thesis
    unfolding near_ratio_def assms fl_tenth by simp
qed

lemma fl_229_100: "fl (229 / 100) = 2578310786669609 / 1125899906842624"
  using fl_near [of "229 / 100" 1 5156621573339218] by (simp add: pow2_def)

lemma fl_239_100: "fl (239 / 100) = 5381801554707743 / 2251799813685248"
  using fl_near [of "239 / 100" 1 5381801554707743] by (simp add: pow2_def)

lemma near_edge_229_100:
  assumes "of_nat w / of_nat h = (229 / 100 :: rat)"
  shows "\<not> near_ratio w h (239 / 100)"
proof -
  have "fl (229 / 100) - fl (239 / 100) = - (225179981368525 / 2251799813685248)"
    unfolding fl_229_100 fl_239_100 by simp
  then have "\<bar>fl (fl (229 / 100) - fl (239 / 100))\<bar> = 225179981368525 / 2251799813685248"
    by (simp only: fl_neg fl_225179981368525_2251799813685248 abs_minus_cancel)
  then show ?thesis
    unfolding near_ratio_def assms fl_tenth by simp
qed

lemma fl_249_100: "fl (249 / 100) = 1401745384019067 / 562949953421312"
  using fl_near [of "249 / 100" 1 5606981536076268] by (simp add: pow2_def)

lemma near_edge_249_100:
  assumes "of_nat w / of_nat h = (249 / 100 :: rat)"
  shows "\<not> near_ratio w h (239 / 100)"
proof -
  have "fl (249 / 100) - fl (239 / 100) = (225179981368525 / 2251799813685248)"
    unfolding fl_249_100 fl_239_100 by simp
  then have "\<bar>fl (fl (249 / 100) - fl (239 / 100))\<bar> = 225179981368525 / 2251799813685248"
    by (simp only: fl_neg fl_225179981368525_2251799813685248 abs_minus_cancel)
  then show ?thesis
    unfolding near_ratio_def assms fl_tenth by simp
qed

lemma fl_7_4: "fl (7 / 4) = 7 / 4"
  using fl_near [of "7 / 4" 0 7881299347898368] by (simp add: pow2_def)

lemma fl_37_20: "fl (37 / 20) = 4165829655317709 / 2251799813685248"
  using fl_near [of "37 / 20" 0 8331659310635418] by (simp add: pow2_def)

lemma near_edge_7_4:
  assumes "of_nat w / of_nat h = (7 / 4 :: rat)"
  shows "\<not> near_ratio w h (37 / 20)"
proof -
  have "fl (7 / 4) - fl (37 / 20) = - (225179981368525 / 2251799813685248)"
    unfolding fl_7_4 fl_37_20 by simp
  then have "\<bar>fl (fl (7 / 4) - fl (37 / 20))\<bar> = 225179981368525 / 2251799813685248"
    by (simp only: fl_neg fl_225179981368525_2251799813685248 abs_minus_cancel)
  then show ?thesis
    unfolding near_ratio_def assms fl_tenth by simp
qed

lemma fl_39_20: "fl (39 / 20) = 8782019273372467 / 4503599627370496"
  using fl_near [of "39 / 20" 0 8782019273372467] by (simp add: pow2_def)

lemma fl_450359962737049_4503599627370496: "fl (450359962737049 / 4503599627370496) = 450359962737049 / 4503599627370496"
  using fl_near [of "450359962737049 / 4503599627370496" "-4" 7205759403792784] by (simp add: pow2_def)

lemma near_edge_39_20:
  assumes "of_nat w / of_nat h = (39 / 20 :: rat)"
  shows "near_ratio w h (37 / 20)"
proof -
  have "fl (39 / 20) - fl (37 / 20) = (450359962737049 / 4503599627370496)"
    unfolding fl_39_20 fl_37_20 by simp
  then have "\<bar>fl (fl (39 / 20) - fl (37 / 20))\<bar> = 450359962737049 / 4503599627370496"
    by (simp only: fl_neg fl_450359962737049_4503599627370496 abs_minus_cancel)
  then show ?thesis
    unfolding near_ratio_def assms fl_tenth by simp
qed

lemma fl_42_25: "fl (42 / 25) = 7566047373982433 / 4503599627370496"
  using fl_near [of "42 / 25" 0 7566047373982433] by (simp add: pow2_def)

lemma fl_89_50: "fl (89 / 50) = 8016407336719483 / 4503599627370496"
  using fl_near [of "89 / 50" 0 8016407336719483] by (simp add: pow2_def)

lemma near_edge_42_25:
  assumes "of_nat w / of_nat h = (42 / 25 :: rat)"
  shows "\<not> near_ratio w h (89 / 50)"
proof -
  have "fl (42 / 25) - fl (89 / 50) = - (225179981368525 / 2251799813685248)"
    unfolding fl_42_25 fl_89_50 by simp
  then have "\<bar>fl (fl (42 / 25) - fl (89 / 50))\<bar> = 225179981368525 / 2251799813685248"
    by (simp only: fl_neg fl_225179981368525_2251799813685248 abs_minus_cancel)
  then show ?thesis
    unfolding near_ratio_def assms fl_tenth by simp
qed

lemma fl_47_25: "fl (47 / 25) = 2116691824864133 / 1125899906842624"
  using fl_near [of "47 / 25" 0 8466767299456532] by (simp add: pow2_def)

lemma near_edge_47_25:
  assumes "of_nat w / of_nat h = (47 / 25 :: rat)"
  shows "near_ratio w h (89 / 50)"
proof -
  have "fl (47 / 25) - fl (89 / 50) = (450359962737049 / 4503599627370496)"
    unfolding fl_47_25 fl_89_50 by simp
  then have "\<bar>fl (fl (47 / 25) - fl (89 / 50))\<bar> = 450359962737049 / 4503599627370496"
    by (simp only: fl_neg fl_450359962737049_4503599627370496 abs_minus_cancel)
  then show ?thesis
    unfolding near_ratio_def assms fl_tenth by simp
qed

text \<open>
  With a height up to \<open>10\<^sup>1\<^sup>0\<close> a ratio that is not a bucket edge is at least \<open>10\<^sup>-\<^sup>1\<^sup>2\<close> away
  from it, where the doubles and exact arithmetic agree.
\<close>

lemma edge_gap:
  fixes w h a :: nat
  assumes h: "0 < h" "h \<le> 10000000000"
    and ne: "of_nat w / of_nat h \<noteq> (of_nat a / 100 :: rat)"
  shows "1 / 1000000000000 \<le> \<bar>of_nat w / of_nat h - (of_nat a / 100 :: rat)\<bar>"
proof -
  define z where "z = int w * 100 - int a * int h"
  have hq: "(of_nat h :: rat) \<noteq> 0" using h(1) by simp
  have eq: "of_nat w / of_nat h - (of_nat a / 100 :: rat) = of_int z / (of_nat h * 100)"
    using hq by (simp add: z_def field_simps)
  have "z \<noteq> 0"
  proof
    assume "z = 0"
    then have "of_nat w / of_nat h - (of_nat a / 100 :: rat) = 0" using eq by simp
    then show False using ne by simp
  qed
  then have "1 \<le> \<bar>z\<bar>" by simp
  then have z1: "(1 :: rat) \<le> \<bar>of_int z\<bar>" by (metis of_int_1 of_int_abs of_int_le_iff)
  have "(of_nat h :: rat) \<le> 10000000000" using h(2) by (metis of_nat_le_iff of_nat_numeral)
  then have d: "(of_nat h :: rat) * 100 \<le> 1000000000000" by simp
  have dpos: "0 < (of_nat h :: rat) * 100" using h(1) by simp
  have "1 / 1000000000000 \<le> 1 / ((of_nat h :: rat) * 100)"
    using d dpos by (intro divide_left_mono) simp_all
  also have "\<dots> \<le> \<bar>of_int z\<bar> / ((of_nat h :: rat) * 100)"
    using z1 dpos by (intro divide_right_mono) simp_all
  also have "\<dots> = \<bar>of_int z / ((of_nat h :: rat) * 100)\<bar>" using dpos by simp
  finally show ?thesis using eq by simp
qed

lemma near_ratio_mid:
  fixes w h k :: nat
  assumes w: "0 < w" and h: "0 < h" "h \<le> 10000000000"
    and k: "10 \<le> k" "k \<le> 400"
    and lo: "of_nat w / of_nat h \<noteq> (of_nat (k - 10) / 100 :: rat)"
    and hi: "of_nat w / of_nat h \<noteq> (of_nat (k + 10) / 100 :: rat)"
  shows "near_ratio w h (of_nat k / 100) \<longleftrightarrow> \<bar>of_nat w / of_nat h - (of_nat k / 100 :: rat)\<bar> < 1 / 10"
proof -
  define x :: rat where "x = of_nat w / of_nat h"
  define c :: rat where "c = of_nat k / 100"
  have r: "0 < of_nat w / (of_nat h :: rat)" using w h(1) by simp
  have c0: "0 < c" using k(1) by (simp add: c_def)
  have "(of_nat k :: rat) \<le> 400" using k(2) by (metis of_nat_le_iff of_nat_numeral)
  then have c4: "c \<le> 4" by (simp add: c_def)
  have elo: "(of_nat (k - 10) / 100 :: rat) = c - 1 / 10"
    using k(1) by (simp add: c_def of_nat_diff field_simps)
  have ehi: "(of_nat (k + 10) / 100 :: rat) = c + 1 / 10"
    by (simp add: c_def field_simps)
  have g1: "1 / 1000000000000 \<le> \<bar>x - (c - 1 / 10)\<bar>"
    using edge_gap [OF h lo] unfolding elo x_def .
  have g2: "1 / 1000000000000 \<le> \<bar>x - (c + 1 / 10)\<bar>"
    using edge_gap [OF h hi] unfolding ehi x_def .
  have off: "\<bar>x - c\<bar> \<le> 1 / 10 - 1 / 1000000000000 \<or> 1 / 10 + 1 / 1000000000000 \<le> \<bar>x - c\<bar>"
    using g1 g2 by linarith
  note e = near_ratio_exact [OF r c0 c4, folded x_def]
  show ?thesis
  proof (cases "\<bar>x - c\<bar> \<le> 1 / 10 - 1 / 1000000000000")
    case True
    then have "near_ratio w h c" using e by blast
    moreover have "\<bar>x - c\<bar> < 1 / 10" using True by linarith
    ultimately show ?thesis unfolding x_def c_def by simp
  next
    case False
    then have f: "1 / 10 + 1 / 1000000000000 \<le> \<bar>x - c\<bar>" using off by blast
    then have "\<not> near_ratio w h c" using e by blast
    moreover have "\<not> \<bar>x - c\<bar> < 1 / 10" using f by linarith
    ultimately show ?thesis unfolding x_def c_def by simp
  qed
qed

lemma near_ratio_235:
  assumes "0 < w" "0 < h" "h \<le> 10000000000"
  shows "near_ratio w h (235 / 100) = tolerance_exact w h (235 / 100)"
proof -
  consider "of_nat w / of_nat h = (9 / 4 :: rat)" | "of_nat w / of_nat h = (49 / 20 :: rat)"
    | "of_nat w / of_nat h \<noteq> (9 / 4 :: rat)" "of_nat w / of_nat h \<noteq> (49 / 20 :: rat)" by blast
  then show ?thesis
  proof cases
    case 1
    have "tolerance_exact w h (235 / 100) = near_ratio w h (235 / 100)"
      using near_edge_9_4 [OF 1] unfolding tolerance_exact_def Let_def 1 by simp
    then show ?thesis by simp
  next
    case 2
    have "tolerance_exact w h (235 / 100) = near_ratio w h (235 / 100)"
      using near_edge_49_20 [OF 2] unfolding tolerance_exact_def Let_def 2 by simp
    then show ?thesis by simp
  next
    case 3
    then show ?thesis using near_ratio_mid [OF assms, of 235] by (simp add: tolerance_exact_def)
  qed
qed

lemma near_ratio_239:
  assumes "0 < w" "0 < h" "h \<le> 10000000000"
  shows "near_ratio w h (239 / 100) = tolerance_exact w h (239 / 100)"
proof -
  consider "of_nat w / of_nat h = (229 / 100 :: rat)" | "of_nat w / of_nat h = (249 / 100 :: rat)"
    | "of_nat w / of_nat h \<noteq> (229 / 100 :: rat)" "of_nat w / of_nat h \<noteq> (249 / 100 :: rat)" by blast
  then show ?thesis
  proof cases
    case 1
    have "tolerance_exact w h (239 / 100) = near_ratio w h (239 / 100)"
      using near_edge_229_100 [OF 1] unfolding tolerance_exact_def Let_def 1 by simp
    then show ?thesis by simp
  next
    case 2
    have "tolerance_exact w h (239 / 100) = near_ratio w h (239 / 100)"
      using near_edge_249_100 [OF 2] unfolding tolerance_exact_def Let_def 2 by simp
    then show ?thesis by simp
  next
    case 3
    then show ?thesis using near_ratio_mid [OF assms, of 239] by (simp add: tolerance_exact_def)
  qed
qed

lemma near_ratio_185:
  assumes "0 < w" "0 < h" "h \<le> 10000000000"
  shows "near_ratio w h (185 / 100) = tolerance_exact w h (185 / 100)"
proof -
  consider "of_nat w / of_nat h = (7 / 4 :: rat)" | "of_nat w / of_nat h = (39 / 20 :: rat)"
    | "of_nat w / of_nat h \<noteq> (7 / 4 :: rat)" "of_nat w / of_nat h \<noteq> (39 / 20 :: rat)" by blast
  then show ?thesis
  proof cases
    case 1
    have "tolerance_exact w h (185 / 100) = near_ratio w h (185 / 100)"
      using near_edge_7_4 [OF 1] unfolding tolerance_exact_def Let_def 1 by simp
    then show ?thesis by simp
  next
    case 2
    have "tolerance_exact w h (185 / 100) = near_ratio w h (185 / 100)"
      using near_edge_39_20 [OF 2] unfolding tolerance_exact_def Let_def 2 by simp
    then show ?thesis by simp
  next
    case 3
    then have ne: "of_nat w / of_nat h - (185 / 100 :: rat) \<noteq> 1 / 10" by linarith
    have m: "near_ratio w h (185 / 100)
        \<longleftrightarrow> \<bar>of_nat w / of_nat h - (185 / 100 :: rat)\<bar> < 1 / 10"
      using near_ratio_mid [OF assms, of 185] 3 by simp
    show ?thesis unfolding m tolerance_exact_def Let_def using ne by blast
  qed
qed

lemma near_ratio_178:
  assumes "0 < w" "0 < h" "h \<le> 10000000000"
  shows "near_ratio w h (178 / 100) = tolerance_exact w h (178 / 100)"
proof -
  consider "of_nat w / of_nat h = (42 / 25 :: rat)" | "of_nat w / of_nat h = (47 / 25 :: rat)"
    | "of_nat w / of_nat h \<noteq> (42 / 25 :: rat)" "of_nat w / of_nat h \<noteq> (47 / 25 :: rat)" by blast
  then show ?thesis
  proof cases
    case 1
    have "tolerance_exact w h (178 / 100) = near_ratio w h (178 / 100)"
      using near_edge_42_25 [OF 1] unfolding tolerance_exact_def Let_def 1 by simp
    then show ?thesis by simp
  next
    case 2
    have "tolerance_exact w h (178 / 100) = near_ratio w h (178 / 100)"
      using near_edge_47_25 [OF 2] unfolding tolerance_exact_def Let_def 2 by simp
    then show ?thesis by simp
  next
    case 3
    then have ne: "of_nat w / of_nat h - (178 / 100 :: rat) \<noteq> 1 / 10" by linarith
    have m: "near_ratio w h (178 / 100)
        \<longleftrightarrow> \<bar>of_nat w / of_nat h - (178 / 100 :: rat)\<bar> < 1 / 10"
      using near_ratio_mid [OF assms, of 178] 3 by simp
    show ?thesis unfolding m tolerance_exact_def Let_def using ne by blast
  qed
qed

lemma aspectRatio_double:
  assumes "0 < width" "0 < height"
  shows "aspectRatio width height = aspectRatio_spec (tolerance_double width height) width height"
  unfolding aspectRatio_def aspectRatio_spec_def gcd_js_gcd using assms
  by (simp add: Let_def near_ratio_def tolerance_double_def)

lemma aspectRatio_exact:
  assumes "0 < width" "0 < height" "height \<le> 10000000000"
  shows "aspectRatio width height = aspectRatio_spec (tolerance_exact width height) width height"
  unfolding aspectRatio_def aspectRatio_spec_def gcd_js_gcd
    near_ratio_235 [OF assms] near_ratio_239 [OF assms] near_ratio_185 [OF assms]
    near_ratio_178 [OF assms]
  using assms(1,2) by (simp add: Let_def)

text \<open>
  Claim C3, as the code has it.  For every positive width and height the aspect ratio of
  the code is the reference definition with the bucket test in double arithmetic: the
  reduced pair matched against \<open>16:9\<close> (and \<open>64:36\<close>), \<open>4:3\<close> (and \<open>16:12\<close>), \<open>21:9\<close>, then
  the raw ratio against the buckets \<open>2.35\<close>, \<open>2.39\<close>, \<open>1.85\<close> and \<open>1.78\<close> in this order, then
  the reduced pair as \<open>W:H\<close>.  For heights up to \<open>10\<^sup>1\<^sup>0\<close> the double test is the test in
  exact arithmetic, with the ratios \<open>1.95\<close> and \<open>1.88\<close> inside the buckets \<open>1.85\<close> and \<open>1.78\<close>
  and the six other bucket edges outside.  The video section of a track carries this
  value for the track's width and height.  So \<open>(1920, 1080)\<close> gives \<open>16:9\<close>, \<open>(720, 480)\<close>
  gives \<open>3:2\<close>, and \<open>(1920, 800)\<close>, whose ratio \<open>2.4\<close> is within the first bucket tested,
  gives \<open>2.35:1\<close>.
\<close>

theorem aspectRatio_reference:
  "(0 < w \<and> 0 < h \<longrightarrow> aspectRatio w h = aspectRatio_spec (tolerance_double w h) w h)
   \<and> (0 < w \<and> 0 < h \<and> h \<le> 10000000000 \<longrightarrow>
        aspectRatio w h = aspectRatio_spec (tolerance_exact w h) w h)
   \<and> (Width track = Some w \<and> Height track = Some h \<longrightarrow>
        video_aspectRatio (videoTrack rt track) = aspectRatio w h)
   \<and> aspectRatio 1920 1080 = ''16:9''
   \<and> aspectRatio 720 480 = ''3:2''
   \<and> aspectRatio 1920 800 = ''2.35:1''"
proof (intro conjI impI)
  assume "0 < w \<and> 0 < h"
  then show "aspectRatio w h = aspectRatio_spec (tolerance_double w h) w h"
    by (simp add: aspectRatio_double)
next
  assume "0 < w \<and> 0 < h \<and> h \<le> 10000000000"
  then show "aspectRatio w h = aspectRatio_spec (tolerance_exact w h) w h"
    by (simp add: aspectRatio_exact)
next
  assume "Width track = Some w \<and> Height track = Some h"
  then show "video_aspectRatio (videoTrack rt track) = aspectRatio w h"
    by (cases "w = 0"; cases "h = 0") (simp_all add: videoTrack_def truthy_nat_def Let_def)
qed (rule aspect_ex1 aspect_ex2 aspect_ex3)+

theorem aspectRatio_reference_witness:
  "aspectRatio 1560 800 = ''1.85:1'' \<and> aspectRatio 1440 640 = ''9:4''
   \<and> aspectRatio 1400 800 = ''16:9''
   \<and> video_aspectRatio
     (videoTrack sampleRuntime ((emptyTrack ''Video'')\<lparr>Width := Some 1280, Height := Some 544\<rparr>))
   = ''2.35:1''"
proof -
  have g: "gcd (1560::nat) 800 = 40" "gcd (1440::nat) 640 = 160" "gcd (1400::nat) 800 = 200"
    "gcd (1280::nat) 544 = 32"
    using gcd_js_gcd [of 1560 800] gcd_js_gcd [of 1440 640] gcd_js_gcd [of 1400 800]
      gcd_js_gcd [of 1280 544]
    by (simp_all add: gcd_js_examples)
  have s: "aspectRatio_spec (tolerance_exact 1560 800) 1560 800 = ''1.85:1''"
    "aspectRatio_spec (tolerance_exact 1440 640) 1440 640 = ''9:4''"
    "aspectRatio_spec (tolerance_exact 1400 800) 1400 800 = ''16:9''"
    "aspectRatio_spec (tolerance_exact 1280 544) 1280 544 = ''2.35:1''"
    by (simp_all add: aspectRatio_spec_def g Let_def tolerance_exact_def digits_small)
  have t: "Width ((emptyTrack ''Video'')\<lparr>Width := Some 1280, Height := Some 544\<rparr>) = Some 1280"
    "Height ((emptyTrack ''Video'')\<lparr>Width := Some 1280, Height := Some 544\<rparr>) = Some 544"
    by (simp_all add: emptyTrack_def)
  have "0 < (1560::nat) \<and> 0 < (800::nat) \<and> (800::nat) \<le> 10000000000" by simp
  with aspectRatio_reference [of 1560 800 "emptyTrack ''Video''" sampleRuntime]
  have "aspectRatio 1560 800 = aspectRatio_spec (tolerance_exact 1560 800) 1560 800" by blast
  then have a: "aspectRatio 1560 800 = ''1.85:1''" using s(1) by simp
  have "0 < (1440::nat) \<and> 0 < (640::nat) \<and> (640::nat) \<le> 10000000000" by simp
  with aspectRatio_reference [of 1440 640 "emptyTrack ''Video''" sampleRuntime]
  have "aspectRatio 1440 640 = aspectRatio_spec (tolerance_exact 1440 640) 1440 640" by blast
  then have b: "aspectRatio 1440 640 = ''9:4''" using s(2) by simp
  have "0 < (1400::nat) \<and> 0 < (800::nat) \<and> (800::nat) \<le> 10000000000" by simp
  with aspectRatio_reference [of 1400 800 "emptyTrack ''Video''" sampleRuntime]
  have "aspectRatio 1400 800 = aspectRatio_spec (tolerance_exact 1400 800) 1400 800" by blast
  then have c: "aspectRatio 1400 800 = ''16:9''" using s(3) by simp
  have d: "video_aspectRatio
     (videoTrack sampleRuntime ((emptyTrack ''Video'')\<lparr>Width := Some 1280, Height := Some 544\<rparr>))
     = ''2.35:1''"
  proof -
    have "0 < (1280::nat) \<and> 0 < (544::nat) \<and> (544::nat) \<le> 10000000000" by simp
    with aspectRatio_reference [of 1280 544
        "(emptyTrack ''Video'')\<lparr>Width := Some 1280, Height := Some 544\<rparr>" sampleRuntime] t
    have "aspectRatio 1280 544 = aspectRatio_spec (tolerance_exact 1280 544) 1280 544"
      and "video_aspectRatio
        (videoTrack sampleRuntime ((emptyTrack ''Video'')\<lparr>Width := Some 1280, Height := Some 544\<rparr>))
        = aspectRatio 1280 544"
      by blast+
    then show ?thesis using s(4) by simp
  qed
  show ?thesis using a b c d by simp
qed

text \<open>
  A \<open>1920\<close> by \<open>800\<close> track is not put in the \<open>2.39\<close> bucket: the \<open>2.35\<close> bucket is tested
  first and holds its ratio.
\<close>

theorem aspectRatio_first_bucket:
  "video_aspectRatio
     (videoTrack sampleRuntime ((emptyTrack ''Video'')\<lparr>Width := Some 1920, Height := Some 800\<rparr>))
   = ''2.35:1''
   \<and> video_aspectRatio
     (videoTrack sampleRuntime ((emptyTrack ''Video'')\<lparr>Width := Some 1920, Height := Some 800\<rparr>))
   \<noteq> ''2.39:1''"
  by (simp add: videoTrack_def truthy_nat_def Let_def emptyTrack_def aspect_ex3)

end
